theory Spec2Isabelle
  imports Complex_Main
begin

section \<open>The training loop of the sentiment classifier (src/train/trainer.py)\<close>

text \<open>
  The class \<open>Trainer\<close> drives a text+image classifier through epochs of training and
  validation, keeps the best validation loss and a patience counter, writes checkpoints
  and finally evaluates the reloaded best model on two test splits. The model, the data
  loaders, the optimiser, the persistence helpers and the metric library are
  collaborators outside the file: what they return is a parameter of the definitions
  below, and every call made to them is recorded, in order, in a log of effects. The
  definitions describe the runs in which the collaborators return; an exception that one
  of the modelled methods raises itself is a result of the definition.
\<close>

subsection \<open>Python floats under comparison\<close>

text \<open>
  The loop compares losses with \<open><\<close> and starts from \<open>float('inf')\<close>. A loss is a
  Python float: a finite number, an infinity or NaN. Every comparison with NaN is false.
\<close>

datatype pyfloat = NaN | NegInf | Finite real | PosInf

fun float_lt :: "pyfloat \<Rightarrow> pyfloat \<Rightarrow> bool" where
  "float_lt NaN y = False"
| "float_lt x NaN = False"
| "float_lt NegInf NegInf = False"
| "float_lt NegInf y = True"
| "float_lt (Finite a) (Finite b) = (a < b)"
| "float_lt (Finite a) PosInf = True"
| "float_lt (Finite a) NegInf = False"
| "float_lt PosInf y = False"

text \<open>The exceptions that the modelled methods can raise themselves.\<close>

datatype error = IndexError | ValueError | RuntimeError | ZeroDivisionError | TypeError

subsection \<open>Configuration and trainer state\<close>

text \<open>
  The class \<open>Config\<close> lives in another file of the repository; its attributes that the
  modelled methods read are the fields of this record.
\<close>

record config =
  NUM_EPOCHS :: int
  EARLY_STOP_PATIENCE :: int
  USE_CLASS_WEIGHTS :: bool
  NUM_CLASSES :: int
  CLASS_WEIGHT_METHOD :: string
  EFFECTIVE_NUM_BETA :: real
  CONTRASTIVE_WEIGHT :: real
  TEMPERATURE :: real
  MIXUP_ALPHA :: real
  CUTMIX_ALPHA :: real

datatype checkpoint = Best_model | Model_epoch nat

datatype split = Test_split | Noisy_test_split

datatype call =
    Train_epoch
  | Validate
  | Save_model checkpoint
  | Save_training_curves
  | Analyze_modal_weights
  | Load_model checkpoint
  | Evaluate split

text \<open>When a call is made: in the body of epoch \<open>k\<close> (counted from 0), or after the loop.\<close>

datatype phase = In_epoch nat | After_loop

text \<open>
  What \<open>_train_epoch()\<close> and \<open>_validate()\<close> return in one epoch. The loop of
  \<open>train\<close> only stores and compares these values, so it takes them as given: an
  environment maps the index of an epoch to its results.
\<close>

record epoch_result =
  train_loss :: pyfloat
  train_acc :: real
  alpha_values :: "real list"
  val_loss :: pyfloat
  val_acc :: real
  val_f1 :: real

text \<open>
  The attributes of \<open>self\<close> that \<open>train\<close> reads and writes, with the log of the calls
  made so far.
\<close>

record trainer =
  best_val_loss :: pyfloat
  patience_counter :: int
  train_losses :: "pyfloat list"
  val_losses :: "pyfloat list"
  train_accuracies :: "real list"
  val_accuracies :: "real list"
  alpha_history :: "real list"
  effects :: "(phase \<times> call) list"

text \<open>The part of \<open>__init__\<close> that sets these attributes (lines 108-117).\<close>

definition init_trainer :: trainer where
  "init_trainer =
     \<lparr>best_val_loss = PosInf, patience_counter = 0,
      train_losses = [], val_losses = [], train_accuracies = [], val_accuracies = [],
      alpha_history = [], effects = []\<rparr>"

subsection \<open>The epoch loop of \<open>train\<close> (lines 235-289)\<close>

definition do_call :: "phase \<Rightarrow> call \<Rightarrow> trainer \<Rightarrow> trainer" where
  "do_call p c st = st\<lparr>effects := effects st @ [(p, c)]\<rparr>"

text \<open>Lines 240-250: run the epoch, validate, append to the histories.\<close>

definition record_epoch :: "(nat \<Rightarrow> epoch_result) \<Rightarrow> nat \<Rightarrow> trainer \<Rightarrow> trainer" where
  "record_epoch env epoch st =
     (let st1 = do_call (In_epoch epoch) Validate (do_call (In_epoch epoch) Train_epoch st);
          r = env epoch
      in st1\<lparr>train_losses := train_losses st1 @ [train_loss r],
              val_losses := val_losses st1 @ [val_loss r],
              train_accuracies := train_accuracies st1 @ [train_acc r],
              val_accuracies := val_accuracies st1 @ [val_acc r],
              alpha_history := alpha_history st1 @ alpha_values r\<rparr>)"

text \<open>Lines 279-289: the end of an epoch that did not break.\<close>

definition end_of_epoch :: "nat \<Rightarrow> trainer \<Rightarrow> trainer" where
  "end_of_epoch epoch st =
     do_call (In_epoch epoch) Analyze_modal_weights
       (do_call (In_epoch epoch) Save_training_curves
          (do_call (In_epoch epoch) (Save_model (Model_epoch (epoch + 1))) st))"

text \<open>
  One pass through the loop body. The boolean says whether the body left the loop
  through \<open>break\<close> (line 277).
\<close>

definition epoch_body :: "config \<Rightarrow> (nat \<Rightarrow> epoch_result) \<Rightarrow> nat \<Rightarrow> trainer \<Rightarrow> bool \<times> trainer" where
  "epoch_body cfg env epoch st =
     (let st1 = record_epoch env epoch st;
          v = val_loss (env epoch)
      in if float_lt v (best_val_loss st1) then
           (False,
            end_of_epoch epoch
              (do_call (In_epoch epoch) (Save_model Best_model)
                 (st1\<lparr>best_val_loss := v, patience_counter := 0\<rparr>)))
         else
           (let st2 = st1\<lparr>patience_counter := patience_counter st1 + 1\<rparr>
            in if patience_counter st2 \<ge> EARLY_STOP_PATIENCE cfg then (True, st2)
               else (False, end_of_epoch epoch st2)))"

text \<open>\<open>for epoch in range(...)\<close>: the epochs still to run are a list of indices.\<close>

fun epoch_loop :: "config \<Rightarrow> (nat \<Rightarrow> epoch_result) \<Rightarrow> nat list \<Rightarrow> trainer \<Rightarrow> bool \<times> trainer" where
  "epoch_loop cfg env [] st = (False, st)"
| "epoch_loop cfg env (epoch # rest) st =
     (case epoch_body cfg env epoch st of
        (True, st') \<Rightarrow> (True, st')
      | (False, st') \<Rightarrow> epoch_loop cfg env rest st')"

text \<open>\<open>range(n)\<close> for a Python integer: empty when \<open>n \<le> 0\<close>.\<close>

definition py_range :: "int \<Rightarrow> nat list" where
  "py_range n = [0..<nat n]"

text \<open>The loop of one \<open>train()\<close> run, and the loop cut after its first \<open>k\<close> indices.\<close>

definition run_epochs :: "config \<Rightarrow> (nat \<Rightarrow> epoch_result) \<Rightarrow> trainer \<Rightarrow> bool \<times> trainer" where
  "run_epochs cfg env st = epoch_loop cfg env (py_range (NUM_EPOCHS cfg)) st"

definition after_epochs :: "config \<Rightarrow> (nat \<Rightarrow> epoch_result) \<Rightarrow> nat \<Rightarrow> trainer \<Rightarrow> bool \<times> trainer" where
  "after_epochs cfg env k st = epoch_loop cfg env (take k (py_range (NUM_EPOCHS cfg))) st"

subsection \<open>Tensors and the objects that hold them\<close>

text \<open>
  An image batch is a tensor of four dimensions (batch, channel, and the two spatial
  dimensions that the source calls \<open>W\<close> and \<open>H\<close>): its shape and its entries by index,
  taken as real numbers. Only the entries inside the shape are entries of the tensor.
  A label batch is a tensor of one dimension, a list.
\<close>

record tensor4 =
  dims :: "nat \<times> nat \<times> nat \<times> nat"
  elems :: "nat \<Rightarrow> nat \<Rightarrow> nat \<Rightarrow> nat \<Rightarrow> real"

datatype tensor = Images tensor4 | Labels "real list"

text \<open>
  \<open>_cutmix\<close> writes into the tensor it is given, so tensors live in a store of objects:
  a variable of the source holds a reference, the position of its object in the store,
  and a new tensor is put at the end.
\<close>

type_synonym store = "tensor list"

definition lookup :: "store \<Rightarrow> nat \<Rightarrow> tensor option" where
  "lookup s a = (if a < length s then Some (s ! a) else None)"

definition alloc :: "tensor \<Rightarrow> store \<Rightarrow> nat \<times> store" where
  "alloc v s = (length s, s @ [v])"

text \<open>\<open>k * t\<close>, \<open>t + u\<close> for tensors of one shape, and \<open>t[index, :]\<close>.\<close>

definition scale4 :: "real \<Rightarrow> tensor4 \<Rightarrow> tensor4" where
  "scale4 k t = t\<lparr>elems := (\<lambda>b c x y. k * elems t b c x y)\<rparr>"

definition add4 :: "tensor4 \<Rightarrow> tensor4 \<Rightarrow> tensor4" where
  "add4 t u = t\<lparr>elems := (\<lambda>b c x y. elems t b c x y + elems u b c x y)\<rparr>"

definition select4 :: "tensor4 \<Rightarrow> nat list \<Rightarrow> tensor4" where
  "select4 t index =
     (case dims t of (B, C, W, H) \<Rightarrow>
        \<lparr>dims = (length index, C, W, H), elems = (\<lambda>b. elems t (index ! b))\<rparr>)"

text \<open>
  \<open>t[:, :, bbx1:bbx2, bby1:bby2] = src[:, :, bbx1:bbx2, bby1:bby2]\<close>, for bounds that lie
  inside the shape.
\<close>

definition in_box :: "int \<times> int \<times> int \<times> int \<Rightarrow> nat \<Rightarrow> nat \<Rightarrow> bool" where
  "in_box box x y =
     (case box of (bbx1, bby1, bbx2, bby2) \<Rightarrow>
        bbx1 \<le> int x \<and> int x < bbx2 \<and> bby1 \<le> int y \<and> int y < bby2)"

definition assign_box :: "tensor4 \<Rightarrow> int \<times> int \<times> int \<times> int \<Rightarrow> tensor4 \<Rightarrow> tensor4" where
  "assign_box t box src =
     t\<lparr>elems := (\<lambda>b c x y. if in_box box x y then elems src b c x y else elems t b c x y)\<rparr>"

text \<open>
  The same on label batches. Picking an index outside the list raises; adding lists of
  different lengths broadcasts a list of length 1 and raises otherwise.
\<close>

definition vselect :: "real list \<Rightarrow> nat list \<Rightarrow> error + real list" where
  "vselect ls index =
     (if \<exists>i \<in> set index. length ls \<le> i then Inl IndexError else Inr (map (\<lambda>i. ls ! i) index))"

definition vscale :: "real \<Rightarrow> real list \<Rightarrow> real list" where
  "vscale k ls = map (\<lambda>v. k * v) ls"

definition vadd :: "real list \<Rightarrow> real list \<Rightarrow> error + real list" where
  "vadd xs ys =
     (if length xs = length ys then Inr (map (\<lambda>(v, w). v + w) (zip xs ys))
      else if length ys = 1 then Inr (map (\<lambda>v. v + hd ys) xs)
      else if length xs = 1 then Inr (map (\<lambda>w. hd xs + w) ys)
      else Inl RuntimeError)"

text \<open>\<open>lam * labels + (1 - lam) * labels[index]\<close> (lines 183 and 204).\<close>

definition mix_labels :: "real \<Rightarrow> real list \<Rightarrow> nat list \<Rightarrow> error + real list" where
  "mix_labels lam ls index =
     (case vselect ls index of
        Inl e \<Rightarrow> Inl e
      | Inr picked \<Rightarrow> vadd (vscale lam ls) (vscale (1 - lam) picked))"

subsection \<open>The augmentations (\<open>_mixup\<close>, \<open>_cutmix\<close>, \<open>_rand_bbox\<close>, lines 172-225)\<close>

text \<open>
  The random draws of one augmentation, in the order of the calls:
  \<open>np.random.beta(alpha, alpha)\<close>, \<open>torch.randperm(batch_size)\<close>,
  \<open>np.random.randint(W)\<close> and \<open>np.random.randint(H)\<close>.
\<close>

record draws =
  beta_draw :: real
  randperm :: "nat list"
  randint_W :: int
  randint_H :: int

text \<open>What the library promises of \<open>torch.randperm(n)\<close>: a permutation of \<open>0, ..., n - 1\<close>.\<close>

definition valid_randperm :: "nat \<Rightarrow> nat list \<Rightarrow> bool" where
  "valid_randperm n index = (length index = n \<and> distinct index \<and> set index = {0..<n})"

definition mixup :: "store \<Rightarrow> nat \<Rightarrow> nat \<Rightarrow> real \<Rightarrow> draws \<Rightarrow> error + (store \<times> nat \<times> nat)" where
  "mixup s images labels alpha d =
     (case (lookup s images, lookup s labels) of
        (Some (Images t), Some (Labels ls)) \<Rightarrow>
          (let lam = (if alpha > 0 then beta_draw d else 1);
               index = randperm d;
               mixed_images = add4 (scale4 lam t) (scale4 (1 - lam) (select4 t index))
           in case mix_labels lam ls index of
                Inl e \<Rightarrow> Inl e
              | Inr mixed_labels \<Rightarrow>
                  (let (ri, s1) = alloc (Images mixed_images) s;
                       (rl, s2) = alloc (Labels mixed_labels) s1
                   in Inr (s2, ri, rl)))
      | _ \<Rightarrow> Inl TypeError)"

text \<open>\<open>int(x)\<close> on a float truncates towards zero; \<open>np.clip(a, lo, hi)\<close>.\<close>

definition py_int :: "real \<Rightarrow> int" where
  "py_int x = (if 0 \<le> x then \<lfloor>x\<rfloor> else \<lceil>x\<rceil>)"

definition np_clip :: "int \<Rightarrow> int \<Rightarrow> int \<Rightarrow> int" where
  "np_clip a lo hi = min (max a lo) hi"

text \<open>
  \<open>_rand_bbox\<close>. For \<open>lam > 1\<close> the square root is NaN and \<open>int\<close> raises; for a spatial
  size of 0, \<open>np.random.randint\<close> raises.
\<close>

definition rand_bbox :: "nat \<times> nat \<times> nat \<times> nat \<Rightarrow> real \<Rightarrow> draws \<Rightarrow> error + (int \<times> int \<times> int \<times> int)" where
  "rand_bbox shape lam d =
     (case shape of (B, C, W, H) \<Rightarrow>
        if 1 - lam < 0 then Inl ValueError
        else
          (let cut_rat = sqrt (1 - lam);
               cut_w = py_int (real W * cut_rat);
               cut_h = py_int (real H * cut_rat)
           in if W = 0 \<or> H = 0 then Inl ValueError
              else
                (let cx = randint_W d;
                     cy = randint_H d;
                     bbx1 = np_clip (cx - cut_w div 2) 0 (int W);
                     bby1 = np_clip (cy - cut_h div 2) 0 (int H);
                     bbx2 = np_clip (cx + cut_w div 2) 0 (int W);
                     bby2 = np_clip (cy + cut_h div 2) 0 (int H)
                 in Inr (bbx1, bby1, bbx2, bby2))))"

text \<open>Line 202: the mixing coefficient recomputed from the box.\<close>

definition box_lam :: "nat \<times> nat \<times> nat \<times> nat \<Rightarrow> int \<times> int \<times> int \<times> int \<Rightarrow> real" where
  "box_lam shape box =
     (case (shape, box) of ((B, C, W, H), (bbx1, bby1, bbx2, bby2)) \<Rightarrow>
        1 - real_of_int ((bbx2 - bbx1) * (bby2 - bby1)) / real (H * W))"

text \<open>
  \<open>_cutmix\<close>. The slice on the right of line 201 is taken through an index tensor and
  so is a copy: the assignment reads the old entries. The assignment changes the object
  behind \<open>images\<close>, and that same reference is returned.
\<close>

definition cutmix :: "store \<Rightarrow> nat \<Rightarrow> nat \<Rightarrow> real \<Rightarrow> draws \<Rightarrow> error + (store \<times> nat \<times> nat)" where
  "cutmix s images labels alpha d =
     (case (lookup s images, lookup s labels) of
        (Some (Images t), Some (Labels ls)) \<Rightarrow>
          (let lam = (if alpha > 0 then beta_draw d else 1);
               index = randperm d
           in case rand_bbox (dims t) lam d of
                Inl e \<Rightarrow> Inl e
              | Inr box \<Rightarrow>
                  (let s1 = s[images := Images (assign_box t box (select4 t index))];
                       lam' = box_lam (dims t) box
                   in case mix_labels lam' ls index of
                        Inl e \<Rightarrow> Inl e
                      | Inr mixed_labels \<Rightarrow>
                          (let (rl, s2) = alloc (Labels mixed_labels) s1
                           in Inr (s2, images, rl))))
      | _ \<Rightarrow> Inl TypeError)"

subsection \<open>Evaluation on a split (\<open>evaluate\<close>, lines 444-506)\<close>

text \<open>
  A batch of a data loader: the token ids, the attention mask, the images and one integer
  label per sample. What the tokens and images are does not matter to \<open>evaluate\<close>.
\<close>

record ('a, 'b) batch =
  input_ids :: 'a
  attention_mask :: 'a
  image :: 'b
  label :: "int list"

text \<open>
  What the model returns for a batch: one row of logits per sample, the text and image
  features, and the modal weights \<open>alpha\<close> (or \<open>None\<close>). Tensor entries are taken as real
  numbers.
\<close>

record model_output =
  logits :: "real list list"
  text_features :: "real list list"
  image_features :: "real list list"
  alpha :: "real list option"

text \<open>
  The three functions of \<open>sklearn.metrics\<close> as \<open>evaluate\<close> calls them:
  \<open>accuracy_score\<close>, \<open>f1_score\<close> with \<open>average='macro'\<close>, and \<open>roc_auc_score\<close> with
  \<open>multi_class='ovr', average='macro'\<close>, which may raise (\<open>None\<close>).
\<close>

record metrics =
  accuracy_score :: "int list \<Rightarrow> int list \<Rightarrow> real"
  f1_score_macro :: "int list \<Rightarrow> int list \<Rightarrow> real"
  roc_auc_score_ovr_macro :: "real list list \<Rightarrow> real list list \<Rightarrow> real option"

record eval_result =
  accuracy :: real
  f1 :: real
  auc :: real
  predictions :: "int list"
  labels :: "int list"
  probabilities :: "real list list"

text \<open>\<open>F.softmax(logits, dim=1)\<close> on one row.\<close>

definition softmax :: "real list \<Rightarrow> real list" where
  "softmax row = map (\<lambda>x. exp x / sum_list (map exp row)) row"

text \<open>
  \<open>torch.max(logits, 1)\<close> on one row: the index of the first largest entry; an empty row
  raises.
\<close>

fun argmax_from :: "nat \<Rightarrow> real \<Rightarrow> nat \<Rightarrow> real list \<Rightarrow> nat" where
  "argmax_from bi bv i [] = bi"
| "argmax_from bi bv i (x # xs) =
     (if bv < x then argmax_from i x (Suc i) xs else argmax_from bi bv (Suc i) xs)"

definition argmax_row :: "real list \<Rightarrow> error + nat" where
  "argmax_row row = (case row of [] \<Rightarrow> Inl RuntimeError | x # xs \<Rightarrow> Inr (argmax_from 0 x 1 xs))"

text \<open>Run the steps of a list in order and stop at the first that raises.\<close>

fun collect :: "(error + 'a) list \<Rightarrow> error + 'a list" where
  "collect [] = Inr []"
| "collect (Inl e # rs) = Inl e"
| "collect (Inr x # rs) = (case collect rs of Inl e \<Rightarrow> Inl e | Inr xs \<Rightarrow> Inr (x # xs))"

text \<open>
  \<open>np.eye(NUM_CLASSES)[all_labels]\<close>: the rows of the identity matrix picked by the labels.
  A negative label counts from the end; a label outside \<open>[-n, n)\<close>, a negative \<open>n\<close>, or
  the empty (hence float-typed) label array raises.
\<close>

definition one_hot :: "int \<Rightarrow> int list \<Rightarrow> real list list option" where
  "one_hot n ls =
     (if n < 0 \<or> ls = [] \<or> (\<exists>l \<in> set ls. l < - n \<or> n \<le> l) then None
      else Some (map (\<lambda>l. map (\<lambda>j. if int j = (if l < 0 then l + n else l) then 1 else 0)
                              [0..<nat n]) ls))"

text \<open>
  The body of \<open>evaluate\<close>. The \<open>try\<close> block covers the one-hot encoding and the AUC; when
  either raises, \<open>auc\<close> keeps its initial 0.
\<close>

definition evaluate ::
  "config \<Rightarrow> metrics \<Rightarrow> ('a \<Rightarrow> 'a \<Rightarrow> 'b \<Rightarrow> model_output) \<Rightarrow> ('a, 'b) batch list \<Rightarrow> error + eval_result" where
  "evaluate cfg lib model data_loader =
     (let outs = map (\<lambda>b. logits (model (input_ids b) (attention_mask b) (image b))) data_loader
      in case collect (map (\<lambda>rows. collect (map argmax_row rows)) outs) of
           Inl e \<Rightarrow> Inl e
         | Inr predicted \<Rightarrow>
             (let all_preds = map int (concat predicted);
                  all_labels = concat (map label data_loader);
                  all_probs = concat (map (map softmax) outs)
              in Inr \<lparr>accuracy = accuracy_score lib all_labels all_preds,
                      f1 = f1_score_macro lib all_labels all_preds,
                      auc = (case one_hot (NUM_CLASSES cfg) all_labels of
                               None \<Rightarrow> 0
                             | Some y_true \<Rightarrow>
                                 (case roc_auc_score_ovr_macro lib y_true all_probs of
                                    None \<Rightarrow> 0 | Some a \<Rightarrow> a)),
                      predictions = all_preds,
                      labels = all_labels,
                      probabilities = all_probs\<rparr>))"

subsection \<open>The whole of \<open>train\<close> (lines 227-312)\<close>

text \<open>The dictionary that \<open>train\<close> returns.\<close>

record train_output =
  out_train_losses :: "pyfloat list"
  out_val_losses :: "pyfloat list"
  out_train_accuracies :: "real list"
  out_val_accuracies :: "real list"
  out_alpha_history :: "real list"
  test_results :: eval_result
  noise_test_results :: eval_result

text \<open>
  After the loop: reload \<open>best_model.pt\<close>, evaluate on the test split and on the noisy
  test split, return the histories and the two results. \<open>best\<close> is the reloaded model.
\<close>

definition train ::
  "config \<Rightarrow> (nat \<Rightarrow> epoch_result) \<Rightarrow> metrics \<Rightarrow> ('a \<Rightarrow> 'a \<Rightarrow> 'b \<Rightarrow> model_output) \<Rightarrow>
   ('a, 'b) batch list \<Rightarrow> ('a, 'b) batch list \<Rightarrow> trainer \<Rightarrow> error + (train_output \<times> trainer)" where
  "train cfg env lib best test_loader noise_test_loader st =
     (let st1 = snd (run_epochs cfg env st);
          st2 = do_call After_loop (Load_model Best_model) st1;
          st3 = do_call After_loop (Evaluate Test_split) st2
      in case evaluate cfg lib best test_loader of
           Inl e \<Rightarrow> Inl e
         | Inr test \<Rightarrow>
             (let st4 = do_call After_loop (Evaluate Noisy_test_split) st3
              in case evaluate cfg lib best noise_test_loader of
                   Inl e \<Rightarrow> Inl e
                 | Inr noise \<Rightarrow>
                     Inr (\<lparr>out_train_losses = train_losses st4,
                           out_val_losses = val_losses st4,
                           out_train_accuracies = train_accuracies st4,
                           out_val_accuracies = val_accuracies st4,
                           out_alpha_history = alpha_history st4,
                           test_results = test,
                           noise_test_results = noise\<rparr>, st4)))"

subsection \<open>One training epoch (\<open>_train_epoch\<close>, lines 314-394)\<close>

text \<open>
  The collaborators of a training step: the model as it stands after \<open>n\<close> optimiser
  steps of the epoch, the loss \<open>self.criterion\<close>, and the model's method
  \<open>get_contrastive_loss\<close> when it has one (\<open>hasattr\<close>), called with the text features,
  the image features and the temperature.
\<close>

record 'a components =
  model_after :: "nat \<Rightarrow> 'a \<Rightarrow> 'a \<Rightarrow> tensor4 \<Rightarrow> model_output"
  criterion :: "real list list \<Rightarrow> int list \<Rightarrow> real"
  get_contrastive_loss :: "(real list list \<Rightarrow> real list list \<Rightarrow> real \<Rightarrow> real) option"

text \<open>The calls that change the optimisation state, in the order made.\<close>

datatype step =
    Zero_grad
  | Forward
  | Backward real
  | Clip_grad_norm
  | Optimizer_step
  | Scheduler_step

text \<open>The random draws of one step: \<open>np.random.random()\<close>, then those of the augmentation.\<close>

record step_draws =
  choice :: real
  augment :: draws

text \<open>The running totals of the epoch, with the log of the steps.\<close>

record totals =
  total_loss :: real
  total_samples :: nat
  correct :: nat
  alphas :: "real list"
  steps :: "step list"

text \<open>
  Lines 325-343: the image and label tensors of the batch are two objects; one of the
  augmentations is applied; the model runs on the augmented images; \<open>labels.long()\<close>
  truncates the mixed labels.
\<close>

definition batch_store :: "('a, tensor4) batch \<Rightarrow> store" where
  "batch_store b = [Images (image b), Labels (map real_of_int (label b))]"

definition forward_batch ::
  "config \<Rightarrow> 'a components \<Rightarrow> nat \<Rightarrow> step_draws \<Rightarrow> ('a, tensor4) batch \<Rightarrow> error + (model_output \<times> int list)" where
  "forward_batch cfg col n d b =
     (case (if choice d < 0.5 then mixup (batch_store b) 0 1 (MIXUP_ALPHA cfg) (augment d)
            else cutmix (batch_store b) 0 1 (CUTMIX_ALPHA cfg) (augment d)) of
        Inl e \<Rightarrow> Inl e
      | Inr (s, imgs, lbls) \<Rightarrow>
          (case (lookup s imgs, lookup s lbls) of
             (Some (Images t), Some (Labels ls)) \<Rightarrow>
               Inr (model_after col n (input_ids b) (attention_mask b) t, map py_int ls)
           | _ \<Rightarrow> Inl TypeError))"

text \<open>Lines 345-388: the loss, the optimisation calls and the statistics of one batch.\<close>

definition train_batch ::
  "config \<Rightarrow> 'a components \<Rightarrow> nat \<Rightarrow> step_draws \<Rightarrow> ('a, tensor4) batch \<Rightarrow> totals \<Rightarrow> error + totals" where
  "train_batch cfg col n d b acc =
     (case forward_batch cfg col n d b of
        Inl e \<Rightarrow> Inl e
      | Inr (out, labels_long) \<Rightarrow>
          (let classification_loss = criterion col (logits out) labels_long;
               loss = (case get_contrastive_loss col of
                         Some contrastive \<Rightarrow>
                           classification_loss
                           + CONTRASTIVE_WEIGHT cfg
                             * contrastive (text_features out) (image_features out) (TEMPERATURE cfg)
                       | None \<Rightarrow> classification_loss)
           in case collect (map argmax_row (logits out)) of
                Inl e \<Rightarrow> Inl e
              | Inr predicted \<Rightarrow>
                  Inr (acc\<lparr>total_loss := total_loss acc + loss * real (length labels_long),
                           total_samples := total_samples acc + length labels_long,
                           correct := correct acc
                             + length (filter (\<lambda>(p, l). int p = l) (zip predicted labels_long)),
                           alphas := alphas acc @ (case alpha out of None \<Rightarrow> [] | Some a \<Rightarrow> a),
                           steps := steps acc
                             @ [Zero_grad, Forward, Backward loss, Clip_grad_norm,
                                Optimizer_step, Scheduler_step]\<rparr>)))"

text \<open>The loop over the batches of the loader; \<open>n\<close> counts the batches done.\<close>

fun train_batches ::
  "config \<Rightarrow> 'a components \<Rightarrow> (nat \<Rightarrow> step_draws) \<Rightarrow> nat \<Rightarrow> ('a, tensor4) batch list \<Rightarrow> totals \<Rightarrow> error + totals" where
  "train_batches cfg col ds n [] acc = Inr acc"
| "train_batches cfg col ds n (b # bs) acc =
     (case train_batch cfg col n (ds n) b acc of
        Inl e \<Rightarrow> Inl e
      | Inr acc' \<Rightarrow> train_batches cfg col ds (Suc n) bs acc')"

text \<open>
  The method: the averages over the samples, the modal weights and the log of the steps.
  With no sample the division raises.
\<close>

definition train_epoch ::
  "config \<Rightarrow> 'a components \<Rightarrow> (nat \<Rightarrow> step_draws) \<Rightarrow> ('a, tensor4) batch list \<Rightarrow>
   error + (real \<times> real \<times> real list \<times> step list)" where
  "train_epoch cfg col ds train_loader =
     (case train_batches cfg col ds 0 train_loader
             \<lparr>total_loss = 0, total_samples = 0, correct = 0, alphas = [], steps = []\<rparr> of
        Inl e \<Rightarrow> Inl e
      | Inr acc \<Rightarrow>
          if total_samples acc = 0 then Inl ZeroDivisionError
          else Inr (total_loss acc / real (total_samples acc),
                    real (correct acc) / real (total_samples acc),
                    alphas acc, steps acc))"

subsection \<open>Class weights (\<open>_calculate_class_weights\<close>, lines 119-170)\<close>

text \<open>
  NumPy's float arithmetic on the values that can occur here, rounding left out:
  dividing by zero gives an infinity or NaN instead of raising.
\<close>

fun fsub :: "pyfloat \<Rightarrow> pyfloat \<Rightarrow> pyfloat" where
  "fsub NaN y = NaN"
| "fsub x NaN = NaN"
| "fsub (Finite a) (Finite b) = Finite (a - b)"
| "fsub PosInf PosInf = NaN"
| "fsub NegInf NegInf = NaN"
| "fsub PosInf y = PosInf"
| "fsub NegInf y = NegInf"
| "fsub (Finite a) PosInf = NegInf"
| "fsub (Finite a) NegInf = PosInf"

fun fadd :: "pyfloat \<Rightarrow> pyfloat \<Rightarrow> pyfloat" where
  "fadd NaN y = NaN"
| "fadd x NaN = NaN"
| "fadd (Finite a) (Finite b) = Finite (a + b)"
| "fadd PosInf NegInf = NaN"
| "fadd NegInf PosInf = NaN"
| "fadd PosInf y = PosInf"
| "fadd NegInf y = NegInf"
| "fadd (Finite a) y = y"

fun fmul :: "pyfloat \<Rightarrow> pyfloat \<Rightarrow> pyfloat" where
  "fmul NaN y = NaN"
| "fmul x NaN = NaN"
| "fmul (Finite a) (Finite b) = Finite (a * b)"
| "fmul (Finite a) PosInf = (if a = 0 then NaN else if 0 < a then PosInf else NegInf)"
| "fmul (Finite a) NegInf = (if a = 0 then NaN else if 0 < a then NegInf else PosInf)"
| "fmul PosInf (Finite b) = (if b = 0 then NaN else if 0 < b then PosInf else NegInf)"
| "fmul NegInf (Finite b) = (if b = 0 then NaN else if 0 < b then NegInf else PosInf)"
| "fmul PosInf PosInf = PosInf"
| "fmul NegInf NegInf = PosInf"
| "fmul PosInf NegInf = NegInf"
| "fmul NegInf PosInf = NegInf"

fun fdiv :: "pyfloat \<Rightarrow> pyfloat \<Rightarrow> pyfloat" where
  "fdiv NaN y = NaN"
| "fdiv x NaN = NaN"
| "fdiv (Finite a) (Finite b) =
     (if b = 0 then (if a = 0 then NaN else if 0 < a then PosInf else NegInf)
      else Finite (a / b))"
| "fdiv (Finite a) y = Finite 0"
| "fdiv PosInf (Finite b) = (if 0 \<le> b then PosInf else NegInf)"
| "fdiv NegInf (Finite b) = (if 0 \<le> b then NegInf else PosInf)"
| "fdiv x y = NaN"

text \<open>\<open>weights.sum()\<close>.\<close>

definition fsum :: "pyfloat list \<Rightarrow> pyfloat" where
  "fsum ws = foldl fadd (Finite 0) ws"

text \<open>
  \<open>np.bincount(xs, minlength=n)\<close>: how often each of \<open>0, 1, ...\<close> occurs, over at least
  \<open>n\<close> bins and as many as the largest value needs. A negative value or a negative
  \<open>minlength\<close> raises.
\<close>

definition bincount :: "int list \<Rightarrow> int \<Rightarrow> error + nat list" where
  "bincount xs minlength =
     (if (\<exists>x \<in> set xs. x < 0) \<or> minlength < 0 then Inl ValueError
      else Inr (map (\<lambda>i. count_list xs (int i))
                  [0..<max (nat minlength) (nat (fold max xs (- 1) + 1))]))"

text \<open>
  \<open>beta ** label_counts\<close>: the float64 power of a float by an integer count. It is the
  one operation of the method whose result can leave the range of float64 when \<open>beta\<close>
  is a float and the counts are array sizes: a power at or beyond
  \<open>2^1024 - 2^970\<close>, where rounding to the nearest float64 gives an infinity, overflows.
\<close>

definition float64_overflow :: real where
  "float64_overflow = 2 ^ 1024 - 2 ^ 970"

definition np_power :: "real \<Rightarrow> nat \<Rightarrow> pyfloat" where
  "np_power b c =
     (if float64_overflow \<le> b ^ c then PosInf
      else if b ^ c \<le> - float64_overflow then NegInf
      else Finite (b ^ c))"

text \<open>Lines 145-161: the weights before normalisation, by \<open>CLASS_WEIGHT_METHOD\<close>.\<close>

definition raw_weights :: "config \<Rightarrow> nat list \<Rightarrow> pyfloat list" where
  "raw_weights cfg label_counts =
     (if CLASS_WEIGHT_METHOD cfg = ''inverse'' then
        map (\<lambda>c. fdiv (Finite 1) (Finite (real c))) label_counts
      else if CLASS_WEIGHT_METHOD cfg = ''inverse_sqrt'' then
        map (\<lambda>c. fdiv (Finite 1) (Finite (sqrt (real c)))) label_counts
      else if CLASS_WEIGHT_METHOD cfg = ''effective_samples'' then
        (let beta = EFFECTIVE_NUM_BETA cfg
         in map (\<lambda>c. fdiv (Finite (1 - beta)) (fsub (Finite 1) (np_power beta c))) label_counts)
      else
        map (\<lambda>c. fdiv (Finite 1) (Finite (real c))) label_counts)"

text \<open>
  The method. \<open>Inr None\<close> is Python's \<open>None\<close>. The log message of line 142 reads
  \<open>label_counts[0]\<close>, \<open>label_counts[1]\<close> and \<open>label_counts[2]\<close>, which raises when there
  are fewer than three bins.
\<close>

definition calculate_class_weights :: "config \<Rightarrow> ('a, 'b) batch list \<Rightarrow> error + pyfloat list option" where
  "calculate_class_weights cfg train_loader =
     (if \<not> USE_CLASS_WEIGHTS cfg then Inr None
      else
        (let all_labels = concat (map label train_loader)
         in case bincount all_labels (NUM_CLASSES cfg) of
              Inl e \<Rightarrow> Inl e
            | Inr label_counts \<Rightarrow>
                if length label_counts < 3 then Inl IndexError
                else
                  (let weights = raw_weights cfg label_counts;
                       total = fsum weights
                   in Inr (Some (map (\<lambda>w. fmul (fdiv w total)
                                              (Finite (real_of_int (NUM_CLASSES cfg))))
                                   weights)))))"

subsection \<open>Notions in which the properties of the loop are stated\<close>

text \<open>
  The best validation loss seen before epoch \<open>k\<close> of a run that starts from a new
  trainer: the running minimum under \<open><\<close>, starting from \<open>+inf\<close>.
\<close>

fun best_so_far :: "(nat \<Rightarrow> epoch_result) \<Rightarrow> nat \<Rightarrow> pyfloat" where
  "best_so_far env 0 = PosInf"
| "best_so_far env (Suc k) =
     (if float_lt (val_loss (env k)) (best_so_far env k) then val_loss (env k)
      else best_so_far env k)"

text \<open>Epoch \<open>k\<close> failed to improve on the best validation loss seen so far.\<close>

definition failed_to_improve :: "(nat \<Rightarrow> epoch_result) \<Rightarrow> nat \<Rightarrow> bool" where
  "failed_to_improve env k = (\<not> float_lt (val_loss (env k)) (best_so_far env k))"

text \<open>The last \<open>p\<close> epochs up to and including epoch \<open>k\<close> all failed to improve.\<close>

definition stalled :: "nat \<Rightarrow> (nat \<Rightarrow> epoch_result) \<Rightarrow> nat \<Rightarrow> bool" where
  "stalled p env k = (p \<le> Suc k \<and> (\<forall>j \<in> {Suc k - p ..< Suc k}. failed_to_improve env j))"

text \<open>The number of consecutive epochs without improvement just before epoch \<open>k\<close>.\<close>

fun streak :: "(nat \<Rightarrow> epoch_result) \<Rightarrow> nat \<Rightarrow> nat" where
  "streak env 0 = 0"
| "streak env (Suc k) = (if failed_to_improve env k then Suc (streak env k) else 0)"

text \<open>The condition under which the body of epoch \<open>k\<close> reaches \<open>break\<close>.\<close>

definition stops :: "config \<Rightarrow> (nat \<Rightarrow> epoch_result) \<Rightarrow> nat \<Rightarrow> bool" where
  "stops cfg env k =
     (failed_to_improve env k \<and> EARLY_STOP_PATIENCE cfg \<le> int (streak env (Suc k)))"

text \<open>
  The calls of one epoch: training and validation, the best-model checkpoint when the
  epoch improved, and the per-epoch checkpoint and plots unless the epoch left the loop.
\<close>

definition calls_of_epoch :: "(nat \<Rightarrow> epoch_result) \<Rightarrow> bool \<Rightarrow> nat \<Rightarrow> (phase \<times> call) list" where
  "calls_of_epoch env stopped k =
     map (Pair (In_epoch k))
       ([Train_epoch, Validate]
        @ (if failed_to_improve env k then [] else [Save_model Best_model])
        @ (if stopped then []
           else [Save_model (Model_epoch (k + 1)), Save_training_curves, Analyze_modal_weights]))"

text \<open>
  The state of a new trainer after \<open>n\<close> passes through the loop body, the last of
  which left the loop when \<open>stopped\<close> holds.
\<close>

definition tracks :: "(nat \<Rightarrow> epoch_result) \<Rightarrow> nat \<Rightarrow> bool \<Rightarrow> trainer \<Rightarrow> bool" where
  "tracks env n stopped st =
     (val_losses st = map (\<lambda>j. val_loss (env j)) [0..<n] \<and>
      train_losses st = map (\<lambda>j. train_loss (env j)) [0..<n] \<and>
      train_accuracies st = map (\<lambda>j. train_acc (env j)) [0..<n] \<and>
      val_accuracies st = map (\<lambda>j. val_acc (env j)) [0..<n] \<and>
      alpha_history st = concat (map (\<lambda>j. alpha_values (env j)) [0..<n]) \<and>
      best_val_loss st = best_so_far env n \<and>
      patience_counter st = int (streak env n) \<and>
      effects st = concat (map (\<lambda>j. calls_of_epoch env (stopped \<and> Suc j = n) j) [0..<n]))"

text \<open>The number of epochs a trainer has run: its calls of \<open>_train_epoch()\<close>.\<close>

definition epochs_executed :: "trainer \<Rightarrow> nat" where
  "epochs_executed st = length (filter (\<lambda>e. snd e = Train_epoch) (effects st))"

text \<open>
  The calls that a run has added to the log of the trainer \<open>st\<close> it started from, and
  the number of epochs it has run.
\<close>

definition new_calls :: "trainer \<Rightarrow> trainer \<Rightarrow> (phase \<times> call) list" where
  "new_calls st st' = drop (length (effects st)) (effects st')"

definition epochs_run :: "trainer \<Rightarrow> trainer \<Rightarrow> nat" where
  "epochs_run st st' = length (filter (\<lambda>e. snd e = Train_epoch) (new_calls st st'))"

text \<open>
  The calls of epoch \<open>k\<close> from any starting state, by whether the epoch improved on the
  trainer's best validation loss and whether it left the loop.
\<close>

definition calls_in_epoch :: "bool \<Rightarrow> bool \<Rightarrow> nat \<Rightarrow> (phase \<times> call) list" where
  "calls_in_epoch improved stopped k =
     map (Pair (In_epoch k))
       ([Train_epoch, Validate]
        @ (if improved then [Save_model Best_model] else [])
        @ (if stopped then []
           else [Save_model (Model_epoch (k + 1)), Save_training_curves, Analyze_modal_weights]))"

subsection \<open>Notions in which the properties of \<open>train\<close> and \<open>evaluate\<close> are stated\<close>

text \<open>
  The trainer \<open>st'\<close> comes from \<open>st\<close> by the epochs \<open>ks\<close>: their results are appended to
  the histories, and the calls added to the log are all made inside those epochs.
\<close>

definition extends :: "(nat \<Rightarrow> epoch_result) \<Rightarrow> nat list \<Rightarrow> trainer \<Rightarrow> trainer \<Rightarrow> bool" where
  "extends env ks st st' =
     (\<exists>es. effects st' = effects st @ es \<and>
        (\<forall>e \<in> set es. \<exists>k \<in> set ks. fst e = In_epoch k) \<and>
        train_losses st' = train_losses st @ map (\<lambda>k. train_loss (env k)) ks \<and>
        val_losses st' = val_losses st @ map (\<lambda>k. val_loss (env k)) ks \<and>
        train_accuracies st' = train_accuracies st @ map (\<lambda>k. train_acc (env k)) ks \<and>
        val_accuracies st' = val_accuracies st @ map (\<lambda>k. val_acc (env k)) ks \<and>
        alpha_history st' = alpha_history st @ concat (map (\<lambda>k. alpha_values (env k)) ks))"

text \<open>The logits of all samples of a split, in loader order.\<close>

definition split_logits :: "('a \<Rightarrow> 'a \<Rightarrow> 'b \<Rightarrow> model_output) \<Rightarrow> ('a, 'b) batch list \<Rightarrow> real list list" where
  "split_logits model data_loader =
     concat (map (\<lambda>b. logits (model (input_ids b) (attention_mask b) (image b))) data_loader)"

text \<open>\<open>p\<close> is an index of a largest entry of the row.\<close>

definition is_argmax :: "int \<Rightarrow> real list \<Rightarrow> bool" where
  "is_argmax p row = (0 \<le> p \<and> nat p < length row \<and> list_all (\<lambda>x. x \<le> row ! nat p) row)"

text \<open>
  The result \<open>r\<close> holds the metrics of a split: its labels, the predictions (an index of
  a largest logit per sample), the softmax probabilities, the accuracy and macro F1 of
  the predictions against the labels, and the macro one-vs-rest AUC of the probabilities
  against the one-hot labels, or 0 when the encoding or the AUC raises.
\<close>

definition metrics_of_split ::
  "config \<Rightarrow> metrics \<Rightarrow> ('a \<Rightarrow> 'a \<Rightarrow> 'b \<Rightarrow> model_output) \<Rightarrow> ('a, 'b) batch list \<Rightarrow> eval_result \<Rightarrow> bool" where
  "metrics_of_split cfg lib model data_loader r =
     (labels r = concat (map label data_loader) \<and>
      list_all2 is_argmax (predictions r) (split_logits model data_loader) \<and>
      probabilities r = map softmax (split_logits model data_loader) \<and>
      accuracy r = accuracy_score lib (labels r) (predictions r) \<and>
      f1 r = f1_score_macro lib (labels r) (predictions r) \<and>
      auc r = (case one_hot (NUM_CLASSES cfg) (labels r) of
                 None \<Rightarrow> 0
               | Some y_true \<Rightarrow>
                   (case roc_auc_score_ovr_macro lib y_true (probabilities r) of
                      None \<Rightarrow> 0 | Some a \<Rightarrow> a)))"

text \<open>
  The reading of the specification, to compare with: the \<open>auc\<close> entry of \<open>r\<close> is the
  macro one-vs-rest AUC that the library computes for the split.
\<close>

definition holds_auc_of_split :: "config \<Rightarrow> metrics \<Rightarrow> eval_result \<Rightarrow> bool" where
  "holds_auc_of_split cfg lib r =
     (case one_hot (NUM_CLASSES cfg) (labels r) of
        None \<Rightarrow> False
      | Some y_true \<Rightarrow> roc_auc_score_ovr_macro lib y_true (probabilities r) = Some (auc r))"

subsection \<open>Notions in which the properties of the class weights are stated\<close>

text \<open>The number of training samples of class \<open>i\<close>.\<close>

definition class_count :: "('a, 'b) batch list \<Rightarrow> nat \<Rightarrow> nat" where
  "class_count train_loader i = count_list (concat (map label train_loader)) (int i)"

text \<open>The weight of a class with \<open>c\<close> samples before normalisation, as a real number.\<close>

definition pre_weight :: "config \<Rightarrow> nat \<Rightarrow> real" where
  "pre_weight cfg c =
     (if CLASS_WEIGHT_METHOD cfg = ''inverse_sqrt'' then 1 / sqrt (real c)
      else if CLASS_WEIGHT_METHOD cfg = ''effective_samples'' then
        (1 - EFFECTIVE_NUM_BETA cfg) / (1 - EFFECTIVE_NUM_BETA cfg ^ c)
      else 1 / real c)"

subsection \<open>Notions in which the properties of the augmentations are stated\<close>

text \<open>The spatial positions of a \<open>W x H\<close> image that the box does not cover.\<close>

definition kept_positions :: "nat \<Rightarrow> nat \<Rightarrow> int \<times> int \<times> int \<times> int \<Rightarrow> (nat \<times> nat) set" where
  "kept_positions W H box = {(x, y). x < W \<and> y < H \<and> \<not> in_box box x y}"

subsection \<open>Notions in which the property of the training step is stated\<close>

text \<open>The losses passed to \<open>backward()\<close>, in order.\<close>

fun backward_losses :: "step list \<Rightarrow> real list" where
  "backward_losses [] = []"
| "backward_losses (Backward l # xs) = l # backward_losses xs"
| "backward_losses (x # xs) = backward_losses xs"

text \<open>
  The classification loss plus \<open>CONTRASTIVE_WEIGHT\<close> times the contrastive loss of the
  text and image features when the model provides one, the classification loss alone
  otherwise.
\<close>

definition composed_loss :: "config \<Rightarrow> 'a components \<Rightarrow> model_output \<Rightarrow> int list \<Rightarrow> real" where
  "composed_loss cfg col out ys =
     (case get_contrastive_loss col of
        None \<Rightarrow> criterion col (logits out) ys
      | Some contrastive \<Rightarrow>
          criterion col (logits out) ys
          + CONTRASTIVE_WEIGHT cfg
            * contrastive (text_features out) (image_features out) (TEMPERATURE cfg))"

subsection \<open>Example inputs\<close>

text \<open>An environment whose validation losses are the given list, and a configuration.\<close>

definition env_of_val_losses :: "pyfloat list \<Rightarrow> nat \<Rightarrow> epoch_result" where
  "env_of_val_losses vs k =
     \<lparr>train_loss = Finite 1, train_acc = 0, alpha_values = [],
      val_loss = (if k < length vs then vs ! k else NaN), val_acc = 0, val_f1 = 0\<rparr>"

definition cfg_of :: "int \<Rightarrow> int \<Rightarrow> config" where
  "cfg_of n p =
     \<lparr>NUM_EPOCHS = n, EARLY_STOP_PATIENCE = p, USE_CLASS_WEIGHTS = True, NUM_CLASSES = 3,
      CLASS_WEIGHT_METHOD = ''inverse'', EFFECTIVE_NUM_BETA = 0, CONTRASTIVE_WEIGHT = 0, TEMPERATURE = 1,
      MIXUP_ALPHA = 0, CUTMIX_ALPHA = 0\<rparr>"

text \<open>
  Stand-ins for the metric library, a model whose logits are its image argument, and a
  loader of one batch with two samples.
\<close>

definition ex_metrics :: metrics where
  "ex_metrics =
     \<lparr>accuracy_score = (\<lambda>ys ps. real (length (filter (\<lambda>(y, p). y = p) (zip ys ps))) / real (length ys)),
      f1_score_macro = (\<lambda>ys ps. 1),
      roc_auc_score_ovr_macro = (\<lambda>ys ps. None)\<rparr>"

definition ex_model :: "unit \<Rightarrow> unit \<Rightarrow> real list list \<Rightarrow> model_output" where
  "ex_model ids am img = \<lparr>logits = img, text_features = [], image_features = [], alpha = None\<rparr>"

definition ex_loader :: "(unit, real list list) batch list" where
  "ex_loader = [\<lparr>input_ids = (), attention_mask = (), image = [[0, 1, 0], [2, 1, 0]], label = [1, 2]\<rparr>]"

text \<open>
  The same library with an AUC of 3/4 on every input, and a loader whose second label is
  not one of the three classes.
\<close>

definition ex_metrics_auc :: metrics where
  "ex_metrics_auc = ex_metrics\<lparr>roc_auc_score_ovr_macro := (\<lambda>ys ps. Some (3 / 4))\<rparr>"

definition ex_loader_label3 :: "(unit, real list list) batch list" where
  "ex_loader_label3 = [\<lparr>input_ids = (), attention_mask = (), image = [[0, 1, 0], [2, 1, 0]], label = [1, 3]\<rparr>]"

text \<open>A configuration for the class weights, and a loader of one batch with given labels.\<close>

definition weights_cfg :: "int \<Rightarrow> string \<Rightarrow> real \<Rightarrow> config" where
  "weights_cfg n m b =
     \<lparr>NUM_EPOCHS = 1, EARLY_STOP_PATIENCE = 1, USE_CLASS_WEIGHTS = True, NUM_CLASSES = n,
      CLASS_WEIGHT_METHOD = m, EFFECTIVE_NUM_BETA = b, CONTRASTIVE_WEIGHT = 0, TEMPERATURE = 1,
      MIXUP_ALPHA = 0, CUTMIX_ALPHA = 0\<rparr>"

definition labels_loader :: "int list \<Rightarrow> (unit, unit) batch list" where
  "labels_loader ls = [\<lparr>input_ids = (), attention_mask = (), image = (), label = ls\<rparr>]"

text \<open>
  A batch of two images of one channel and size 4 x 4 with the labels 0 and 2, held by
  the objects 0 and 1 of a store, and the draws of one augmentation.
\<close>

definition ex_images :: tensor4 where
  "ex_images = \<lparr>dims = (2, 1, 4, 4), elems = (\<lambda>b c x y. real (100 * b + 10 * x + y))\<rparr>"

definition ex_store :: store where
  "ex_store = [Images ex_images, Labels [0, 2]]"

definition ex_draws :: draws where
  "ex_draws = \<lparr>beta_draw = 3 / 4, randperm = [1, 0], randint_W = 0, randint_H = 3\<rparr>"

text \<open>
  Collaborators of a training step: a model with fixed logits, a criterion that returns 1
  and a contrastive loss that returns 2; a batch, its draws, and a configuration with
  \<open>CONTRASTIVE_WEIGHT = 1/2\<close>.
\<close>

definition ex_components :: "unit components" where
  "ex_components =
     \<lparr>model_after = (\<lambda>n ids am t.
         \<lparr>logits = [[0, 1], [1, 0]], text_features = [], image_features = [], alpha = None\<rparr>),
      criterion = (\<lambda>lg ys. 1),
      get_contrastive_loss = Some (\<lambda>tf imf temp. 2)\<rparr>"

definition ex_batch :: "(unit, tensor4) batch" where
  "ex_batch = \<lparr>input_ids = (), attention_mask = (), image = ex_images, label = [0, 2]\<rparr>"

definition ex_step_draws :: step_draws where
  "ex_step_draws = \<lparr>choice = 3 / 10, augment = ex_draws\<rparr>"

definition ex_train_cfg :: config where
  "ex_train_cfg = (cfg_of 1 1)\<lparr>CONTRASTIVE_WEIGHT := 1 / 2\<rparr>"

section \<open>Lemmas about the epoch loop, the evaluation and the class weights\<close>

subsection \<open>The loop, one epoch at a time\<close>

lemma epoch_loop_snoc:
  "epoch_loop cfg env (xs @ [x]) st =
     (case epoch_loop cfg env xs st of
        (True, s) \<Rightarrow> (True, s)
      | (False, s) \<Rightarrow> epoch_body cfg env x s)"
  by (induction xs arbitrary: st) (auto split: prod.splits bool.splits)

lemma streak_ge_iff:
  "m \<le> streak env n \<longleftrightarrow> (m \<le> n \<and> (\<forall>j \<in> {n - m ..< n}. failed_to_improve env j))"
proof (induction n arbitrary: m)
  case 0
  then show ?case by auto
next
  case (Suc n)
  show ?case
  proof (cases m)
    case 0
    then show ?thesis by simp
  next
    case (Suc m')
    show ?thesis
    proof (cases "failed_to_improve env n")
      case True
      have "{Suc n - Suc m' ..< Suc n} = insert n {n - m' ..< n}" by auto
      with True Suc Suc.IH[of m'] show ?thesis by auto
    next
      case False
      then show ?thesis using Suc by auto
    qed
  qed
qed

lemma stalled_iff_streak: "stalled p env k \<longleftrightarrow> p \<le> streak env (Suc k)"
  unfolding stalled_def using streak_ge_iff[of p env "Suc k"] by blast

lemma epoch_body_fields:
  "val_losses (snd (epoch_body cfg env k st)) = val_losses st @ [val_loss (env k)]"
  "patience_counter (snd (epoch_body cfg env k st)) =
     (if float_lt (val_loss (env k)) (best_val_loss st) then 0 else patience_counter st + 1)"
  "best_val_loss (snd (epoch_body cfg env k st)) =
     (if float_lt (val_loss (env k)) (best_val_loss st) then val_loss (env k) else best_val_loss st)"
  "fst (epoch_body cfg env k st) \<longleftrightarrow>
     \<not> float_lt (val_loss (env k)) (best_val_loss st) \<and> EARLY_STOP_PATIENCE cfg \<le> patience_counter st + 1"
  by (simp_all add: epoch_body_def record_epoch_def end_of_epoch_def do_call_def Let_def)

lemma tracks_init: "tracks env 0 False init_trainer"
  by (simp add: tracks_def init_trainer_def)

lemma calls_not_last:
  "concat (map (\<lambda>j. calls_of_epoch env (b \<and> Suc j = Suc k) j) [0..<k]) =
   concat (map (\<lambda>j. calls_of_epoch env (False \<and> Suc j = k) j) [0..<k])"
  by (rule arg_cong[where f = concat]) simp

lemma tracks_step:
  assumes "tracks env k False st" and "epoch_body cfg env k st = (b, st')"
  shows "tracks env (Suc k) b st'" and "b \<longleftrightarrow> stops cfg env k"
proof -
  have best: "best_val_loss st = best_so_far env k"
    and cnt: "patience_counter st = int (streak env k)"
    using assms(1) by (simp_all add: tracks_def)
  show "b \<longleftrightarrow> stops cfg env k"
    using assms(2) best cnt
    by (auto simp: epoch_body_def record_epoch_def end_of_epoch_def do_call_def Let_def
        stops_def failed_to_improve_def split: if_splits)
  show "tracks env (Suc k) b st'"
    using assms best cnt calls_not_last[of env b k]
    by (auto simp: epoch_body_def record_epoch_def end_of_epoch_def do_call_def Let_def
        tracks_def failed_to_improve_def calls_of_epoch_def split: if_splits)
qed

lemma loop_invariant:
  "case epoch_loop cfg env [0..<k] init_trainer of
     (False, st) \<Rightarrow> tracks env k False st \<and> (\<forall>j<k. \<not> stops cfg env j)
   | (True, st) \<Rightarrow> (\<exists>m<k. tracks env (Suc m) True st \<and> stops cfg env m \<and> (\<forall>j<m. \<not> stops cfg env j))"
proof (induction k)
  case 0
  then show ?case by (simp add: tracks_init)
next
  case (Suc k)
  obtain b st where loop: "epoch_loop cfg env [0..<k] init_trainer = (b, st)"
    by (cases "epoch_loop cfg env [0..<k] init_trainer")
  show ?case
  proof (cases b)
    case True
    with Suc loop obtain m where "m < k" "tracks env (Suc m) True st" "stops cfg env m"
      "\<forall>j<m. \<not> stops cfg env j" by auto
    then show ?thesis using loop True
      by (auto simp: epoch_loop_snoc intro!: exI[of _ m])
  next
    case False
    with Suc loop have tr: "tracks env k False st" and ns: "\<forall>j<k. \<not> stops cfg env j" by auto
    obtain b' st' where body: "epoch_body cfg env k st = (b', st')"
      by (cases "epoch_body cfg env k st")
    from tracks_step[OF tr body] have tr': "tracks env (Suc k) b' st'" and b': "b' \<longleftrightarrow> stops cfg env k"
      by auto
    show ?thesis
    proof (cases b')
      case True
      then show ?thesis using loop False body tr' b' ns
        by (auto simp: epoch_loop_snoc intro!: exI[of _ k])
    next
      case False
      then show ?thesis using loop \<open>\<not> b\<close> body tr' b' ns
        by (auto simp: epoch_loop_snoc less_Suc_eq)
    qed
  qed
qed

lemma count_train_epoch:
  "length (filter (\<lambda>e. snd e = Train_epoch) (concat (map (\<lambda>j. calls_of_epoch env (f j) j) [0..<n]))) = n"
  by (induction n) (auto simp: calls_of_epoch_def)

lemma tracks_executed: "tracks env n b st \<Longrightarrow> epochs_executed st = n"
  by (simp add: tracks_def epochs_executed_def count_train_epoch)

lemma mem_calls:
  "(In_epoch k, c) \<in> set (concat (map (\<lambda>j. calls_of_epoch env (f j) j) [0..<n])) \<longleftrightarrow>
     k < n \<and> (In_epoch k, c) \<in> set (calls_of_epoch env (f k) k)"
  by (auto simp: calls_of_epoch_def)

lemma stops_iff_stalled:
  assumes "1 \<le> EARLY_STOP_PATIENCE cfg"
  shows "stops cfg env k \<longleftrightarrow> stalled (nat (EARLY_STOP_PATIENCE cfg)) env k"
  using assms unfolding stops_def stalled_iff_streak by auto

lemma take_range: "take k (py_range n) = [0..<min k (nat n)]"
  by (simp add: py_range_def take_upt min_def)

lemma run_epochs_after: "run_epochs cfg env st = after_epochs cfg env (nat (NUM_EPOCHS cfg)) st"
  by (simp add: run_epochs_def after_epochs_def py_range_def)

lemma after_epochs_cases:
  obtains (running) st where "after_epochs cfg env k init_trainer = (False, st)"
      "tracks env (min k (nat (NUM_EPOCHS cfg))) False st"
      "\<forall>j < min k (nat (NUM_EPOCHS cfg)). \<not> stops cfg env j"
  | (stopped) st m where "after_epochs cfg env k init_trainer = (True, st)"
      "m < min k (nat (NUM_EPOCHS cfg))" "tracks env (Suc m) True st" "stops cfg env m"
      "\<forall>j < m. \<not> stops cfg env j"
proof -
  let ?n = "min k (nat (NUM_EPOCHS cfg))"
  obtain b st where r: "epoch_loop cfg env [0..<?n] init_trainer = (b, st)"
    by (cases "epoch_loop cfg env [0..<?n] init_trainer")
  show thesis
  proof (cases b)
    case True
    with r loop_invariant[where cfg=cfg and env=env and k="?n"] obtain m where
      "m < ?n" "tracks env (Suc m) True st" "stops cfg env m" "\<forall>j<m. \<not> stops cfg env j"
      by auto
    with r True show ?thesis by (intro stopped[of st m]) (simp_all add: after_epochs_def take_range)
  next
    case False
    with r loop_invariant[where cfg=cfg and env=env and k="?n"] have "tracks env ?n False st" "\<forall>j < ?n. \<not> stops cfg env j"
      by auto
    with r False show ?thesis by (intro running[of st]) (simp_all add: after_epochs_def take_range)
  qed
qed

lemma streak_bound:
  assumes "1 \<le> EARLY_STOP_PATIENCE cfg" and "\<forall>j<n. \<not> stops cfg env j"
  shows "int (streak env n) < EARLY_STOP_PATIENCE cfg"
proof (cases n)
  case 0
  with assms show ?thesis by simp
next
  case (Suc m)
  with assms have "\<not> stops cfg env m" by simp
  then show ?thesis using assms(1) Suc unfolding stops_def by auto
qed

lemma counter_bounded:
  assumes "1 \<le> EARLY_STOP_PATIENCE cfg"
  shows "0 \<le> patience_counter (snd (after_epochs cfg env k init_trainer)) \<and>
         patience_counter (snd (after_epochs cfg env k init_trainer)) \<le> EARLY_STOP_PATIENCE cfg"
proof (cases rule: after_epochs_cases[of cfg env k])
  case (running st)
  with streak_bound[OF assms running(3)] show ?thesis by (simp add: tracks_def)
next
  case (stopped st m)
  from streak_bound[OF assms stopped(5)] have "int (streak env m) < EARLY_STOP_PATIENCE cfg" .
  then have "int (streak env (Suc m)) \<le> EARLY_STOP_PATIENCE cfg" by simp
  with stopped show ?thesis by (simp add: tracks_def)
qed

lemma loop_length:
  assumes "1 \<le> EARLY_STOP_PATIENCE cfg"
  shows "(fst (run_epochs cfg env init_trainer) \<longleftrightarrow>
            (\<exists>k < nat (NUM_EPOCHS cfg). stalled (nat (EARLY_STOP_PATIENCE cfg)) env k)) \<and>
         epochs_executed (snd (run_epochs cfg env init_trainer)) =
           (if \<exists>k < nat (NUM_EPOCHS cfg). stalled (nat (EARLY_STOP_PATIENCE cfg)) env k
            then Suc (LEAST k. stalled (nat (EARLY_STOP_PATIENCE cfg)) env k)
            else nat (NUM_EPOCHS cfg))"
proof (cases rule: after_epochs_cases[of cfg env "nat (NUM_EPOCHS cfg)"])
  case (running st)
  then show ?thesis
    using stops_iff_stalled[OF assms, of env] tracks_executed[OF running(2)]
    by (auto simp: run_epochs_after)
next
  case (stopped st m)
  have "(LEAST k. stalled (nat (EARLY_STOP_PATIENCE cfg)) env k) = m"
    using stopped(4,5) stops_iff_stalled[OF assms, of env]
    by (intro Least_equality) (auto simp: not_less[symmetric])
  moreover have "\<exists>k < nat (NUM_EPOCHS cfg). stalled (nat (EARLY_STOP_PATIENCE cfg)) env k"
    using stopped(2,4) stops_iff_stalled[OF assms, of env] by auto
  ultimately show ?thesis
    using stopped(1) tracks_executed[OF stopped(3)] by (simp add: run_epochs_after)
qed

lemma executed_le: "epochs_executed (snd (run_epochs cfg env init_trainer)) \<le> nat (NUM_EPOCHS cfg)"
proof (cases rule: after_epochs_cases[of cfg env "nat (NUM_EPOCHS cfg)"])
  case (running st)
  then show ?thesis using tracks_executed[OF running(2)] by (simp add: run_epochs_after)
next
  case (stopped st m)
  then show ?thesis using tracks_executed[OF stopped(3)] by (simp add: run_epochs_after)
qed

lemmas run_simps = run_epochs_def after_epochs_def py_range_def epoch_body_def record_epoch_def
  end_of_epoch_def do_call_def init_trainer_def env_of_val_losses_def cfg_of_def Let_def
  epochs_executed_def upt_rec

subsection \<open>The order of losses and the running minimum\<close>

lemma float_lt_trans: "float_lt x y \<Longrightarrow> float_lt y z \<Longrightarrow> float_lt x z"
  by (cases x; cases y; cases z) auto

lemma float_lt_PosInf: "float_lt x PosInf \<longleftrightarrow> x \<noteq> NaN \<and> x \<noteq> PosInf"
  by (cases x) auto

lemma float_lt_linear: "x \<noteq> NaN \<Longrightarrow> y \<noteq> NaN \<Longrightarrow> float_lt x y \<or> x = y \<or> float_lt y x"
  by (cases x; cases y) auto

lemma best_so_far_not_NaN: "best_so_far env k \<noteq> NaN"
proof (induction k)
  case 0
  show ?case by simp
next
  case (Suc k)
  have "float_lt NaN (best_so_far env k) = False" by simp
  with Suc show ?case by (auto simp del: float_lt.simps)
qed

lemma lt_best_so_far_iff:
  "\<forall>j<k. val_loss (env j) \<noteq> NaN \<Longrightarrow>
   float_lt x (best_so_far env k) \<longleftrightarrow>
     float_lt x PosInf \<and> (\<forall>j<k. float_lt x (val_loss (env j)))"
proof (induction k arbitrary: x)
  case 0
  show ?case by simp
next
  case (Suc k)
  from Suc.prems have nn: "val_loss (env k) \<noteq> NaN" and pre: "\<forall>j<k. val_loss (env j) \<noteq> NaN"
    by auto
  note IH = Suc.IH[OF pre]
  show ?case
  proof (cases "float_lt (val_loss (env k)) (best_so_far env k)")
    case True
    have "float_lt x (val_loss (env k)) \<Longrightarrow> float_lt x (best_so_far env k)"
      using True float_lt_trans by blast
    then show ?thesis using True IH[of x] by (auto simp: less_Suc_eq)
  next
    case False
    have "float_lt x (best_so_far env k) \<Longrightarrow> float_lt x (val_loss (env k))"
      using False nn best_so_far_not_NaN[of env k]
        float_lt_linear[of "val_loss (env k)" "best_so_far env k"] float_lt_trans
      by metis
    then show ?thesis using False IH[of x] by (auto simp: less_Suc_eq)
  qed
qed

lemma improved_iff_below_all:
  assumes "\<forall>j \<le> k. val_loss (env j) \<noteq> NaN \<and> val_loss (env j) \<noteq> PosInf"
  shows "\<not> failed_to_improve env k \<longleftrightarrow> (\<forall>j<k. float_lt (val_loss (env k)) (val_loss (env j)))"
proof -
  have "\<forall>j<k. val_loss (env j) \<noteq> NaN" using assms by auto
  from lt_best_so_far_iff[OF this, of "val_loss (env k)"] assms
  show ?thesis by (simp add: failed_to_improve_def float_lt_PosInf)
qed

lemma after_epochs_Suc:
  "after_epochs cfg env (Suc k) st =
     (if k < nat (NUM_EPOCHS cfg)
      then (case after_epochs cfg env k st of
              (True, s) \<Rightarrow> (True, s)
            | (False, s) \<Rightarrow> epoch_body cfg env k s)
      else after_epochs cfg env k st)"
  by (simp add: after_epochs_def take_range min_def epoch_loop_snoc)

lemma best_non_increasing:
  "best_val_loss (snd (after_epochs cfg env (Suc k) st)) = best_val_loss (snd (after_epochs cfg env k st))
   \<or> float_lt (best_val_loss (snd (after_epochs cfg env (Suc k) st)))
               (best_val_loss (snd (after_epochs cfg env k st)))"
proof -
  obtain b s where r: "after_epochs cfg env k st = (b, s)"
    by (cases "after_epochs cfg env k st")
  show ?thesis
    using epoch_body_fields(3)[of cfg env k s]
    by (cases b) (auto simp: after_epochs_Suc r)
qed

lemma run_epochs_cases:
  obtains (running) st where "run_epochs cfg env init_trainer = (False, st)"
      "tracks env (nat (NUM_EPOCHS cfg)) False st"
  | (stopped) st m where "run_epochs cfg env init_trainer = (True, st)"
      "m < nat (NUM_EPOCHS cfg)" "tracks env (Suc m) True st" "failed_to_improve env m"
proof (cases rule: after_epochs_cases[of cfg env "nat (NUM_EPOCHS cfg)"])
  case (running st)
  then show ?thesis by (intro that(1)[of st]) (simp_all add: run_epochs_after)
next
  case (stopped st m)
  then show ?thesis by (intro that(2)[of st m]) (simp_all add: run_epochs_after stops_def)
qed

lemma best_model_written:
  "(In_epoch k, Save_model Best_model) \<in> set (effects (snd (run_epochs cfg env init_trainer))) \<longleftrightarrow>
     k < epochs_executed (snd (run_epochs cfg env init_trainer)) \<and> \<not> failed_to_improve env k"
proof (cases rule: run_epochs_cases[of cfg env])
  case (running st)
  from running(2) have "effects st =
      concat (map (\<lambda>j. calls_of_epoch env (False \<and> Suc j = nat (NUM_EPOCHS cfg)) j) [0..<nat (NUM_EPOCHS cfg)])"
    unfolding tracks_def by blast
  with tracks_executed[OF running(2)] running(1) show ?thesis
    by (simp only: mem_calls snd_conv fst_conv) (auto simp: calls_of_epoch_def)
next
  case (stopped st m)
  from stopped(3) have "effects st =
      concat (map (\<lambda>j. calls_of_epoch env (True \<and> Suc j = Suc m) j) [0..<Suc m])"
    unfolding tracks_def by blast
  with tracks_executed[OF stopped(3)] stopped(1,4) show ?thesis
    by (simp only: mem_calls snd_conv fst_conv) (auto simp: calls_of_epoch_def)
qed

lemma env_of_val_losses_nth:
  "k < length vs \<Longrightarrow> val_loss (env_of_val_losses vs k) = vs ! k"
  by (simp add: env_of_val_losses_def)

subsection \<open>The loop from any starting state, and \<open>evaluate\<close>\<close>

lemma epoch_body_appends:
  "\<exists>es. effects (snd (epoch_body cfg env k st)) = effects st @ es \<and>
        (\<forall>e \<in> set es. fst e = In_epoch k) \<and>
        train_losses (snd (epoch_body cfg env k st)) = train_losses st @ [train_loss (env k)] \<and>
        val_losses (snd (epoch_body cfg env k st)) = val_losses st @ [val_loss (env k)] \<and>
        train_accuracies (snd (epoch_body cfg env k st)) = train_accuracies st @ [train_acc (env k)] \<and>
        val_accuracies (snd (epoch_body cfg env k st)) = val_accuracies st @ [val_acc (env k)] \<and>
        alpha_history (snd (epoch_body cfg env k st)) = alpha_history st @ alpha_values (env k)"
  by (simp add: epoch_body_def record_epoch_def end_of_epoch_def do_call_def Let_def)

lemma extends_refl: "extends env [] st st"
  by (simp add: extends_def)

lemma extends_body: "extends env [k] st (snd (epoch_body cfg env k st))"
  using epoch_body_appends[of cfg env k st] by (auto simp: extends_def)

lemma extends_trans:
  assumes "extends env ks st st'" and "extends env ks' st' st''"
  shows "extends env (ks @ ks') st st''"
proof -
  from assms(1) obtain es where es: "effects st' = effects st @ es"
    "\<forall>e \<in> set es. \<exists>k \<in> set ks. fst e = In_epoch k"
    unfolding extends_def by blast
  from assms(2) obtain es' where es': "effects st'' = effects st' @ es'"
    "\<forall>e \<in> set es'. \<exists>k \<in> set ks'. fst e = In_epoch k"
    unfolding extends_def by blast
  have "effects st'' = effects st @ (es @ es')" using es es' by simp
  moreover have "\<forall>e \<in> set (es @ es'). \<exists>k \<in> set (ks @ ks'). fst e = In_epoch k"
    using es(2) es'(2) by auto
  ultimately show ?thesis
    using assms unfolding extends_def by (intro exI[of _ "es @ es'"]) auto
qed

lemma epoch_body_calls:
  "effects (snd (epoch_body cfg env k st)) =
     effects st @ calls_in_epoch (float_lt (val_loss (env k)) (best_val_loss st))
                    (fst (epoch_body cfg env k st)) k"
  by (simp add: epoch_body_def record_epoch_def end_of_epoch_def do_call_def Let_def
      calls_in_epoch_def)

lemma concat_calls_cong:
  assumes "\<And>j. j < m \<Longrightarrow> f j = g j"
  shows "concat (map f [0..<m]) = concat (map g [0..<m])"
  using assms by (intro arg_cong[where f = concat]) simp

lemma epoch_loop_calls:
  "\<exists>m imp. m \<le> k \<and> (if fst (epoch_loop cfg env [0..<k] st) then 0 < m else m = k) \<and>
     extends env [0..<m] st (snd (epoch_loop cfg env [0..<k] st)) \<and>
     effects (snd (epoch_loop cfg env [0..<k] st)) =
       effects st @ concat (map (\<lambda>j. calls_in_epoch (imp j)
                                   (fst (epoch_loop cfg env [0..<k] st) \<and> Suc j = m) j) [0..<m])"
proof (induction k)
  case 0
  show ?case by (simp add: extends_refl)
next
  case (Suc k)
  obtain b s where loop: "epoch_loop cfg env [0..<k] st = (b, s)"
    by (cases "epoch_loop cfg env [0..<k] st")
  from Suc loop obtain m imp where m: "m \<le> k" "if b then 0 < m else m = k"
    and ext: "extends env [0..<m] st s"
    and eff: "effects s = effects st @ concat (map (\<lambda>j. calls_in_epoch (imp j) (b \<and> Suc j = m) j) [0..<m])"
    by auto
  show ?case
  proof (cases b)
    case True
    with loop have "epoch_loop cfg env [0..<Suc k] st = (True, s)"
      by (simp add: epoch_loop_snoc)
    with m ext eff True show ?thesis
      by (intro exI[of _ m] exI[of _ imp]) simp
  next
    case False
    with m have mk: "m = k" by simp
    obtain b' s' where body: "epoch_body cfg env k s = (b', s')"
      by (cases "epoch_body cfg env k s")
    from loop False body have r: "epoch_loop cfg env [0..<Suc k] st = (b', s')"
      by (simp add: epoch_loop_snoc)
    let ?imp = "imp(k := float_lt (val_loss (env k)) (best_val_loss s))"
    have old: "concat (map (\<lambda>j. calls_in_epoch (imp j) (b \<and> Suc j = m) j) [0..<k])
              = concat (map (\<lambda>j. calls_in_epoch (?imp j) (b' \<and> Suc j = Suc k) j) [0..<k])"
      using False by (intro concat_calls_cong) simp
    have "effects s' = effects s @ calls_in_epoch (float_lt (val_loss (env k)) (best_val_loss s)) b' k"
      using epoch_body_calls[of cfg env k s] body by simp
    then have e': "effects s' = effects st @
        concat (map (\<lambda>j. calls_in_epoch (?imp j) (b' \<and> Suc j = Suc k) j) [0..<Suc k])"
      using eff old mk by simp
    have "extends env [k] s s'" using extends_body[of env k s cfg] body by simp
    from extends_trans[OF ext this] have ext': "extends env [0..<Suc k] st s'"
      by (simp add: mk)
    from r e' ext' show ?thesis
      by (intro exI[of _ "Suc k"] exI[of _ ?imp]) simp
  qed
qed

lemma run_epochs_calls:
  "\<exists>m imp. m \<le> nat (NUM_EPOCHS cfg) \<and>
     (if fst (run_epochs cfg env st) then 0 < m else m = nat (NUM_EPOCHS cfg)) \<and>
     extends env [0..<m] st (snd (run_epochs cfg env st)) \<and>
     new_calls st (snd (run_epochs cfg env st)) =
       concat (map (\<lambda>j. calls_in_epoch (imp j) (fst (run_epochs cfg env st) \<and> Suc j = m) j) [0..<m])"
proof -
  from epoch_loop_calls[of "nat (NUM_EPOCHS cfg)" cfg env st] obtain m imp where
    h: "m \<le> nat (NUM_EPOCHS cfg)"
      "if fst (run_epochs cfg env st) then 0 < m else m = nat (NUM_EPOCHS cfg)"
      "extends env [0..<m] st (snd (run_epochs cfg env st))"
      "effects (snd (run_epochs cfg env st)) =
         effects st @ concat (map (\<lambda>j. calls_in_epoch (imp j)
                                   (fst (run_epochs cfg env st) \<and> Suc j = m) j) [0..<m])"
    unfolding run_epochs_def py_range_def by blast
  from h(4) have "new_calls st (snd (run_epochs cfg env st)) =
       concat (map (\<lambda>j. calls_in_epoch (imp j) (fst (run_epochs cfg env st) \<and> Suc j = m) j) [0..<m])"
    by (simp add: new_calls_def)
  with h(1,2,3) show ?thesis by blast
qed

lemma count_calls_in:
  "length (filter (\<lambda>e. snd e = Train_epoch) (concat (map (\<lambda>j. calls_in_epoch (f j) (g j) j) [0..<n]))) = n"
  by (induction n) (auto simp: calls_in_epoch_def)

lemma mem_calls_in:
  "(In_epoch k, c) \<in> set (concat (map (\<lambda>j. calls_in_epoch (f j) (g j) j) [0..<n])) \<longleftrightarrow>
     k < n \<and> (In_epoch k, c) \<in> set (calls_in_epoch (f k) (g k) k)"
  by (auto simp: calls_in_epoch_def)

lemma epoch_checkpoint_written_from:
  "(In_epoch k, Save_model (Model_epoch j)) \<in> set (new_calls st (snd (run_epochs cfg env st))) \<longleftrightarrow>
     j = k + 1 \<and> k < epochs_run st (snd (run_epochs cfg env st)) \<and>
     \<not> (fst (run_epochs cfg env st) \<and> Suc k = epochs_run st (snd (run_epochs cfg env st)))"
proof -
  from run_epochs_calls[of cfg env st] obtain m imp where
    nc: "new_calls st (snd (run_epochs cfg env st)) =
       concat (map (\<lambda>j. calls_in_epoch (imp j) (fst (run_epochs cfg env st) \<and> Suc j = m) j) [0..<m])"
    by blast
  have ex: "epochs_run st (snd (run_epochs cfg env st)) = m"
    unfolding epochs_run_def nc by (rule count_calls_in)
  show ?thesis
    unfolding ex unfolding nc mem_calls_in by (auto simp: calls_in_epoch_def)
qed

lemma run_epochs_log:
  "\<exists>m. m \<le> nat (NUM_EPOCHS cfg) \<and>
     epochs_run st (snd (run_epochs cfg env st)) = m \<and>
     extends env [0..<m] st (snd (run_epochs cfg env st)) \<and>
     effects (snd (run_epochs cfg env st)) = effects st @ new_calls st (snd (run_epochs cfg env st)) \<and>
     (\<forall>e \<in> set (new_calls st (snd (run_epochs cfg env st))).
        \<exists>k<m. fst e = In_epoch k \<and>
          snd e \<in> {Train_epoch, Validate, Save_model Best_model, Save_model (Model_epoch (k + 1)),
                   Save_training_curves, Analyze_modal_weights})"
proof -
  from run_epochs_calls[of cfg env st] obtain m imp where m: "m \<le> nat (NUM_EPOCHS cfg)"
    and ext: "extends env [0..<m] st (snd (run_epochs cfg env st))"
    and nc: "new_calls st (snd (run_epochs cfg env st)) =
       concat (map (\<lambda>j. calls_in_epoch (imp j) (fst (run_epochs cfg env st) \<and> Suc j = m) j) [0..<m])"
    by blast
  have ex: "epochs_run st (snd (run_epochs cfg env st)) = m"
    unfolding epochs_run_def nc by (rule count_calls_in)
  from ext have app: "effects (snd (run_epochs cfg env st))
      = effects st @ new_calls st (snd (run_epochs cfg env st))"
    by (auto simp: extends_def new_calls_def)
  have "\<forall>e \<in> set (new_calls st (snd (run_epochs cfg env st))).
        \<exists>k<m. fst e = In_epoch k \<and>
          snd e \<in> {Train_epoch, Validate, Save_model Best_model, Save_model (Model_epoch (k + 1)),
                   Save_training_curves, Analyze_modal_weights}"
    unfolding nc by (auto simp: calls_in_epoch_def split: if_splits)
  with m ex ext app show ?thesis by blast
qed

lemma argmax_from_max:
  "bi < i \<Longrightarrow> argmax_from bi bv i xs < i + length xs \<and>
     (argmax_from bi bv i xs = bi \<and> (\<forall>x \<in> set xs. x \<le> bv) \<or>
      i \<le> argmax_from bi bv i xs \<and> bv < xs ! (argmax_from bi bv i xs - i) \<and>
      (\<forall>x \<in> set xs. x \<le> xs ! (argmax_from bi bv i xs - i)))"
proof (induction xs arbitrary: bi bv i)
  case Nil
  then show ?case by simp
next
  case (Cons x xs)
  show ?case
  proof (cases "bv < x")
    case True
    from Cons.IH[of i "Suc i" x] show ?thesis using True Cons.prems
      by (auto simp: nth_Cons' Suc_diff_le)
  next
    case False
    from Cons.IH[of bi "Suc i" bv] show ?thesis using False Cons.prems
      by (auto simp: nth_Cons' Suc_diff_le)
  qed
qed

lemma argmax_row_max:
  assumes "argmax_row row = Inr p"
  shows "p < length row \<and> (\<forall>x \<in> set row. x \<le> row ! p)"
proof (cases row)
  case Nil
  with assms show ?thesis by (simp add: argmax_row_def)
next
  case (Cons x xs)
  with assms have p: "p = argmax_from 0 x 1 xs" by (simp add: argmax_row_def)
  from argmax_from_max[of 0 1 x xs] show ?thesis
    unfolding p[symmetric] Cons by (auto simp: nth_Cons' less_Suc_eq_le)
qed


lemma collect_Inr:
  "collect (map f xs) = Inr ys \<Longrightarrow> list_all2 (\<lambda>y x. f x = Inr y) ys xs"
proof (induction xs arbitrary: ys)
  case Nil
  then show ?case by simp
next
  case (Cons x xs)
  then show ?case by (cases "f x") (auto split: sum.splits)
qed

lemma list_all2_concat:
  "list_all2 (list_all2 P) xss yss \<Longrightarrow> list_all2 P (concat xss) (concat yss)"
  by (induction xss yss rule: list_all2_induct) (auto intro: list_all2_appendI)

lemma argmax_row_is_argmax: "argmax_row row = Inr p \<Longrightarrow> is_argmax (int p) row"
  using argmax_row_max[of row p] by (simp add: is_argmax_def list_all_iff)

lemma predictions_are_argmax:
  assumes "collect (map (\<lambda>rows. collect (map argmax_row rows)) outs) = Inr predicted"
  shows "list_all2 is_argmax (map int (concat predicted)) (concat outs)"
proof -
  from collect_Inr[OF assms]
  have "list_all2 (\<lambda>ps rows. collect (map argmax_row rows) = Inr ps) predicted outs" .
  then have "list_all2 (list_all2 (\<lambda>p row. argmax_row row = Inr p)) predicted outs"
    by (rule list_all2_mono) (rule collect_Inr)
  then have "list_all2 (\<lambda>p row. argmax_row row = Inr p) (concat predicted) (concat outs)"
    by (rule list_all2_concat)
  then have "list_all2 (\<lambda>p row. is_argmax (int p) row) (concat predicted) (concat outs)"
    by (rule list_all2_mono) (rule argmax_row_is_argmax)
  then show ?thesis by (simp add: list_all2_map1)
qed

lemma evaluate_metrics:
  assumes "evaluate cfg lib model data_loader = Inr r"
  shows "metrics_of_split cfg lib model data_loader r"
proof -
  let ?outs = "map (\<lambda>b. logits (model (input_ids b) (attention_mask b) (image b))) data_loader"
  from assms obtain predicted where
    p: "collect (map (\<lambda>rows. collect (map argmax_row rows)) ?outs) = Inr predicted"
    by (auto simp: evaluate_def Let_def split: sum.splits)
  from predictions_are_argmax[OF p]
  have "list_all2 is_argmax (map int (concat predicted)) (split_logits model data_loader)"
    by (simp add: split_logits_def)
  moreover have "concat (map (map softmax) ?outs) = map softmax (split_logits model data_loader)"
    by (simp add: split_logits_def map_concat)
  ultimately show ?thesis
    using assms p by (auto simp: evaluate_def Let_def metrics_of_split_def split: option.splits)
qed

subsection \<open>Counting labels and normalising weights\<close>

lemma fold_max_le: "a \<le> b \<Longrightarrow> \<forall>x \<in> set xs. x \<le> b \<Longrightarrow> fold max xs a \<le> (b::int)"
  by (induction xs arbitrary: a) auto

lemma bincount_in_range:
  assumes "0 \<le> n" and "\<forall>l \<in> set xs. 0 \<le> l \<and> l < n"
  shows "bincount xs n = Inr (map (\<lambda>i. count_list xs (int i)) [0..<nat n])"
proof -
  have "fold max xs (- 1) \<le> n - 1" using assms by (intro fold_max_le) auto
  then have "max (nat n) (nat (fold max xs (- 1) + 1)) = nat n" by simp
  moreover have "\<not> (\<exists>x \<in> set xs. x < 0)" using assms(2) by auto
  ultimately show ?thesis using assms(1) by (simp add: bincount_def)
qed

lemma foldl_fadd_Finite: "foldl fadd (Finite a) (map Finite ws) = Finite (a + sum_list ws)"
  by (induction ws arbitrary: a) (simp_all add: algebra_simps)

lemma fsum_Finite: "fsum (map Finite ws) = Finite (sum_list ws)"
  by (simp add: fsum_def foldl_fadd_Finite)

lemma np_power_in_range:
  assumes "\<bar>b\<bar> < 1"
  shows "np_power b c = Finite (b ^ c)"
proof -
  have "\<bar>b ^ c\<bar> \<le> 1" using assms by (simp add: power_abs power_le_one)
  moreover have "(1::real) < float64_overflow" by (simp add: float64_overflow_def)
  ultimately have "\<not> float64_overflow \<le> b ^ c" "\<not> b ^ c \<le> - float64_overflow" by linarith+
  then show ?thesis by (simp add: np_power_def)
qed

lemma pre_weight_pos:
  assumes "0 < c"
    and "CLASS_WEIGHT_METHOD cfg = ''effective_samples'' \<longrightarrow>
           - 1 < EFFECTIVE_NUM_BETA cfg \<and> EFFECTIVE_NUM_BETA cfg < 1"
  shows "0 < pre_weight cfg c"
    and "CLASS_WEIGHT_METHOD cfg = ''effective_samples'' \<Longrightarrow> 1 - EFFECTIVE_NUM_BETA cfg ^ c \<noteq> 0"
proof -
  let ?b = "EFFECTIVE_NUM_BETA cfg"
  have eff: "0 < (1 - ?b) / (1 - ?b ^ c) \<and> 1 - ?b ^ c \<noteq> 0" if "- 1 < ?b" "?b < 1"
  proof -
    from that have "\<bar>?b\<bar> < 1" by simp
    then have "\<bar>?b\<bar> ^ c < 1" using assms(1) by (simp add: power_Suc_less_one power_less_one_iff)
    then have "?b ^ c < 1" using abs_le_iff[of "?b ^ c" "\<bar>?b\<bar> ^ c"] by (simp add: power_abs)
    with that show ?thesis by simp
  qed
  show "0 < pre_weight cfg c" using assms eff by (auto simp: pre_weight_def)
  show "CLASS_WEIGHT_METHOD cfg = ''effective_samples'' \<Longrightarrow> 1 - ?b ^ c \<noteq> 0"
    using assms eff by blast
qed

lemma raw_weights_Finite:
  assumes "\<forall>c \<in> set cs. 0 < c"
    and "CLASS_WEIGHT_METHOD cfg = ''effective_samples'' \<longrightarrow>
           - 1 < EFFECTIVE_NUM_BETA cfg \<and> EFFECTIVE_NUM_BETA cfg < 1"
  shows "raw_weights cfg cs = map (\<lambda>c. Finite (pre_weight cfg c)) cs"
proof -
  have nz: "\<And>c. c \<in> set cs \<Longrightarrow> CLASS_WEIGHT_METHOD cfg = ''effective_samples'' \<Longrightarrow>
      1 - EFFECTIVE_NUM_BETA cfg ^ c \<noteq> 0"
    using pre_weight_pos(2)[OF _ assms(2)] assms(1) by blast
  have pw: "CLASS_WEIGHT_METHOD cfg = ''effective_samples'' \<Longrightarrow>
      np_power (EFFECTIVE_NUM_BETA cfg) c = Finite (EFFECTIVE_NUM_BETA cfg ^ c)" for c
    using assms(2) by (intro np_power_in_range) auto
  show ?thesis using assms(1) nz
    by (auto simp: raw_weights_def pre_weight_def Let_def pw)
qed

lemma sum_list_scaled:
  "sum_list (map (\<lambda>w. w / s * n) ws) = sum_list ws / s * (n::real)"
  by (induction ws) (simp_all add: algebra_simps add_divide_distrib)

lemma sum_list_normalised:
  assumes "sum_list ws \<noteq> 0"
  shows "sum_list (map (\<lambda>w. w / sum_list ws * n) ws) = (n::real)"
  unfolding sum_list_scaled using assms by simp

lemma sum_list_pos_real:
  "xs \<noteq> [] \<Longrightarrow> \<forall>x \<in> set xs. 0 < x \<Longrightarrow> 0 < sum_list (xs :: real list)"
  by (induction xs) (auto intro: add_pos_nonneg sum_list_nonneg less_imp_le)

lemma class_weights_used:
  assumes use: "USE_CLASS_WEIGHTS cfg" and n3: "3 \<le> NUM_CLASSES cfg"
    and range: "\<forall>l \<in> set (concat (map label train_loader)). 0 \<le> l \<and> l < NUM_CLASSES cfg"
    and pos: "\<forall>i < nat (NUM_CLASSES cfg). 0 < class_count train_loader i"
    and beta: "CLASS_WEIGHT_METHOD cfg = ''effective_samples'' \<longrightarrow>
           - 1 < EFFECTIVE_NUM_BETA cfg \<and> EFFECTIVE_NUM_BETA cfg < 1"
  defines "counts \<equiv> map (class_count train_loader) [0..<nat (NUM_CLASSES cfg)]"
  defines "pre \<equiv> map (pre_weight cfg) counts"
  shows "raw_weights cfg counts = map Finite pre"
    and "calculate_class_weights cfg train_loader =
           Inr (Some (map Finite (map (\<lambda>w. w / sum_list pre * real_of_int (NUM_CLASSES cfg)) pre)))"
    and "sum_list (map (\<lambda>w. w / sum_list pre * real_of_int (NUM_CLASSES cfg)) pre)
           = real_of_int (NUM_CLASSES cfg)"
proof -
  have cpos: "\<forall>c \<in> set counts. 0 < c" using pos by (auto simp: counts_def)
  show raw: "raw_weights cfg counts = map Finite pre"
    using raw_weights_Finite[OF cpos beta] by (simp add: pre_def)
  have bc: "bincount (concat (map label train_loader)) (NUM_CLASSES cfg) = Inr counts"
    using bincount_in_range[OF _ range] n3 by (simp add: counts_def class_count_def[abs_def])
  have len: "\<not> length counts < 3" using n3 by (simp add: counts_def)
  have "pre \<noteq> []" using n3 by (simp add: pre_def counts_def)
  moreover have "\<forall>x \<in> set pre. 0 < x"
    using cpos pre_weight_pos(1)[OF _ beta] by (auto simp: pre_def)
  ultimately have spos: "0 < sum_list pre" by (rule sum_list_pos_real)
  then have s0: "sum_list pre \<noteq> 0" by simp
  show "calculate_class_weights cfg train_loader =
           Inr (Some (map Finite (map (\<lambda>w. w / sum_list pre * real_of_int (NUM_CLASSES cfg)) pre)))"
    using use len s0
    by (simp add: calculate_class_weights_def Let_def bc raw fsum_Finite)
  show "sum_list (map (\<lambda>w. w / sum_list pre * real_of_int (NUM_CLASSES cfg)) pre)
           = real_of_int (NUM_CLASSES cfg)"
    by (rule sum_list_normalised[OF s0])
qed

lemma example_counts:
  "\<forall>i < nat 3. 0 < class_count (labels_loader [0, 1, 1, 2]) i"
  by (simp add: numeral_3_eq_3 less_Suc_eq class_count_def labels_loader_def)

lemma count_list_replicate_if: "count_list (replicate n x) y = (if x = y then n else 0)"
  by (induction n) auto

lemma fold_max_replicate: "fold max (replicate n x) a = (if n = 0 then a else max x (a::int))"
  by (induction n arbitrary: a) auto

section \<open>Lemmas about the augmentations\<close>

subsection \<open>The box, the mixed tensors and the store\<close>

lemma py_int_nonneg: "0 \<le> x \<Longrightarrow> 0 \<le> py_int x"
  by (simp add: py_int_def)

lemma np_clip_bounds: "lo \<le> hi \<Longrightarrow> lo \<le> np_clip a lo hi \<and> np_clip a lo hi \<le> hi"
  by (auto simp: np_clip_def)

lemma np_clip_mono: "a \<le> b \<Longrightarrow> np_clip a lo hi \<le> np_clip b lo hi"
  by (auto simp: np_clip_def)

lemma rand_bbox_returns:
  assumes "0 \<le> lam" "lam \<le> 1" "0 < W" "0 < H"
  shows "\<exists>bbx1 bby1 bbx2 bby2.
           rand_bbox (B, C, W, H) lam d = Inr (bbx1, bby1, bbx2, bby2) \<and>
           0 \<le> bbx1 \<and> bbx1 \<le> bbx2 \<and> bbx2 \<le> int W \<and>
           0 \<le> bby1 \<and> bby1 \<le> bby2 \<and> bby2 \<le> int H"
proof -
  let ?cw = "py_int (real W * sqrt (1 - lam))"
  let ?ch = "py_int (real H * sqrt (1 - lam))"
  have "0 \<le> ?cw" "0 \<le> ?ch" using assms by (simp_all add: py_int_nonneg)
  then have h: "0 \<le> ?cw div 2" "0 \<le> ?ch div 2" by simp_all
  have x: "np_clip (randint_W d - ?cw div 2) 0 (int W) \<le> np_clip (randint_W d + ?cw div 2) 0 (int W)"
    using h by (intro np_clip_mono) simp
  have y: "np_clip (randint_H d - ?ch div 2) 0 (int H) \<le> np_clip (randint_H d + ?ch div 2) 0 (int H)"
    using h by (intro np_clip_mono) simp
  show ?thesis
    using assms x y np_clip_bounds[of 0 "int W"] np_clip_bounds[of 0 "int H"]
    by (simp add: rand_bbox_def Let_def)
qed

lemma in_box_region:
  assumes "0 \<le> bbx1" "0 \<le> bby1"
  shows "{(x, y). in_box (bbx1, bby1, bbx2, bby2) x y}
           = {nat bbx1..<nat bbx2} \<times> {nat bby1..<nat bby2}"
  using assms by (auto simp: in_box_def)

lemma card_box:
  assumes "0 \<le> bbx1" "bbx1 \<le> bbx2" "0 \<le> bby1" "bby1 \<le> bby2"
  shows "card {(x, y). in_box (bbx1, bby1, bbx2, bby2) x y} = nat ((bbx2 - bbx1) * (bby2 - bby1))"
proof -
  have "card ({nat bbx1..<nat bbx2} \<times> {nat bby1..<nat bby2})
          = nat (bbx2 - bbx1) * nat (bby2 - bby1)"
    using assms by (simp add: card_cartesian_product nat_diff_distrib)
  also have "\<dots> = nat ((bbx2 - bbx1) * (bby2 - bby1))"
    using assms by (simp add: nat_mult_distrib)
  finally show ?thesis using assms by (simp add: in_box_region)
qed

lemma card_kept:
  assumes "0 \<le> bbx1" "bbx1 \<le> bbx2" "bbx2 \<le> int W" "0 \<le> bby1" "bby1 \<le> bby2" "bby2 \<le> int H"
  shows "int (card (kept_positions W H (bbx1, bby1, bbx2, bby2)))
           = int (W * H) - (bbx2 - bbx1) * (bby2 - bby1)"
proof -
  let ?box = "{(x, y). in_box (bbx1, bby1, bbx2, bby2) x y}"
  let ?all = "{..<W} \<times> {..<H}"
  have sub: "?box \<subseteq> ?all" using assms by (auto simp: in_box_def)
  have "kept_positions W H (bbx1, bby1, bbx2, bby2) = ?all - ?box"
    by (auto simp: kept_positions_def)
  then have "card (kept_positions W H (bbx1, bby1, bbx2, bby2)) = card ?all - card ?box"
    using sub by (simp add: card_Diff_subset finite_subset[OF sub])
  moreover have "card ?box \<le> card ?all" using sub by (intro card_mono) auto
  moreover have "0 \<le> (bbx2 - bbx1) * (bby2 - bby1)" using assms by simp
  ultimately show ?thesis
    using card_box[of bbx1 bbx2 bby1 bby2] assms by (simp add: of_nat_diff)
qed

lemma box_lam_fraction:
  assumes "0 \<le> bbx1" "bbx1 \<le> bbx2" "bbx2 \<le> int W" "0 \<le> bby1" "bby1 \<le> bby2" "bby2 \<le> int H"
    and "0 < W" "0 < H"
  shows "box_lam (B, C, W, H) (bbx1, bby1, bbx2, bby2)
           = real (card (kept_positions W H (bbx1, bby1, bbx2, bby2))) / real (W * H)"
    and "0 \<le> box_lam (B, C, W, H) (bbx1, bby1, bbx2, bby2)"
    and "box_lam (B, C, W, H) (bbx1, bby1, bbx2, bby2) \<le> 1"
proof -
  let ?area = "(bbx2 - bbx1) * (bby2 - bby1)"
  have k: "real (card (kept_positions W H (bbx1, bby1, bbx2, bby2)))
             = real (W * H) - real_of_int ?area"
  proof -
    have "real_of_int (int (card (kept_positions W H (bbx1, bby1, bbx2, bby2))))
            = real_of_int (int (W * H) - ?area)"
      using card_kept[OF assms(1-6)] by simp
    then show ?thesis by simp
  qed
  have pos: "0 < real (W * H)" using assms by simp
  show eq: "box_lam (B, C, W, H) (bbx1, bby1, bbx2, bby2)
           = real (card (kept_positions W H (bbx1, bby1, bbx2, bby2))) / real (W * H)"
  proof -
    have "box_lam (B, C, W, H) (bbx1, bby1, bbx2, bby2) = 1 - real_of_int ?area / real (W * H)"
      by (simp add: box_lam_def mult.commute)
    also have "\<dots> = (real (W * H) - real_of_int ?area) / real (W * H)"
      using assms(7,8) by (simp add: diff_divide_distrib)
    finally show ?thesis unfolding k .
  qed
  show "0 \<le> box_lam (B, C, W, H) (bbx1, bby1, bbx2, bby2)"
    unfolding eq by simp
  have "0 \<le> real_of_int ?area" using assms by simp
  then have "0 \<le> real_of_int ?area / real (H * W)" by (intro divide_nonneg_nonneg) simp_all
  then show "box_lam (B, C, W, H) (bbx1, bby1, bbx2, bby2) \<le> 1"
    unfolding box_lam_def by (simp only: prod.case)
qed

lemma lookup_Some_less: "lookup s a = Some v \<Longrightarrow> a < length s"
  by (simp add: lookup_def split: if_splits)

lemma lookup_append: "lookup (s @ new) a = (if a < length s then lookup s a else lookup new (a - length s))"
  by (auto simp: lookup_def nth_append)

lemma lookup_update:
  "lookup (s[a := v]) a' = (if a' = a \<and> a < length s then Some v else lookup s a')"
  by (auto simp: lookup_def)

lemma mix_labels_same_length:
  assumes "valid_randperm (length ls) index"
  shows "mix_labels lam ls index
           = Inr (map (\<lambda>b. lam * ls ! b + (1 - lam) * ls ! (index ! b)) [0..<length ls])"
proof -
  have len: "length index = length ls" using assms by (simp add: valid_randperm_def)
  have "\<not> (\<exists>i \<in> set index. length ls \<le> i)" using assms by (auto simp: valid_randperm_def)
  then have sel: "vselect ls index = Inr (map (\<lambda>i. ls ! i) index)" by (simp add: vselect_def)
  have "map (\<lambda>(v, w). v + w) (zip (vscale lam ls) (vscale (1 - lam) (map (\<lambda>i. ls ! i) index)))
          = map (\<lambda>b. lam * ls ! b + (1 - lam) * ls ! (index ! b)) [0..<length ls]"
    using len by (intro nth_equalityI) (simp_all add: vscale_def)
  then show ?thesis using len by (simp add: mix_labels_def sel vadd_def vscale_def)
qed

lemma mix_images_elems:
  "add4 (scale4 lam t) (scale4 (1 - lam) (select4 t index))
     = t\<lparr>elems := (\<lambda>b c x y. lam * elems t b c x y + (1 - lam) * elems t (index ! b) c x y)\<rparr>"
  by (cases "dims t") (simp add: add4_def scale4_def select4_def)

lemma mixup_Inr:
  assumes "lookup s imgs = Some (Images t)" "lookup s lbls = Some (Labels ls)"
    and "mix_labels (if al > 0 then beta_draw d else 1) ls (randperm d) = Inr mixed"
  shows "mixup s imgs lbls al d =
           Inr (s @ [Images (add4 (scale4 (if al > 0 then beta_draw d else 1) t)
                       (scale4 (1 - (if al > 0 then beta_draw d else 1)) (select4 t (randperm d)))),
                     Labels mixed],
                length s, Suc (length s))"
  using assms by (simp add: mixup_def alloc_def Let_def)

lemma mixup_cases:
  assumes "mixup s imgs lbls al d = Inr (s', ri, rl)"
  obtains t ls mixed where "lookup s imgs = Some (Images t)" "lookup s lbls = Some (Labels ls)"
    "mix_labels (if al > 0 then beta_draw d else 1) ls (randperm d) = Inr mixed"
  using assms
  by (auto simp: mixup_def Let_def split: option.splits tensor.splits sum.splits)

lemma cutmix_Inr:
  assumes "lookup s imgs = Some (Images t)" "lookup s lbls = Some (Labels ls)"
    and "rand_bbox (dims t) (if al > 0 then beta_draw d else 1) d = Inr box"
    and "mix_labels (box_lam (dims t) box) ls (randperm d) = Inr mixed"
  shows "cutmix s imgs lbls al d =
           Inr (s[imgs := Images (assign_box t box (select4 t (randperm d)))] @ [Labels mixed],
                imgs, length s)"
  using assms by (simp add: cutmix_def alloc_def Let_def)

lemma cutmix_cases:
  assumes "cutmix s imgs lbls al d = Inr (s', ri, rl)"
  obtains t ls box mixed where "lookup s imgs = Some (Images t)" "lookup s lbls = Some (Labels ls)"
    "rand_bbox (dims t) (if al > 0 then beta_draw d else 1) d = Inr box"
    "mix_labels (box_lam (dims t) box) ls (randperm d) = Inr mixed"
  using assms
  by (auto simp: cutmix_def Let_def split: option.splits tensor.splits sum.splits)

lemma in_box_in_bounds:
  assumes "bbx2 \<le> int W" "bby2 \<le> int H" "in_box (bbx1, bby1, bbx2, bby2) x y"
  shows "x < W \<and> y < H"
  using assms by (auto simp: in_box_def)

lemma ex_box: "rand_bbox (dims ex_images) (3 / 4) ex_draws = Inr (0, 2, 1, 4)"
proof -
  have sq: "sqrt (1 / 4) = 1 / 2"
    by (simp add: real_sqrt_divide)
  show ?thesis
    by (simp add: rand_bbox_def ex_images_def ex_draws_def Let_def py_int_def np_clip_def sq)
qed

lemma ex_lookup:
  "lookup ex_store 0 = Some (Images ex_images)" "lookup ex_store 1 = Some (Labels [0, 2])"
  by (simp_all add: ex_store_def lookup_def)

lemma ex_cutmix_runs:
  "\<exists>s'. cutmix ex_store 0 1 1 ex_draws = Inr (s', 0, 2)"
proof -
  have rb: "rand_bbox (dims ex_images) (if (1::real) > 0 then beta_draw ex_draws else 1) ex_draws
              = Inr (0, 2, 1, 4)"
    using ex_box by (simp add: ex_draws_def)
  have "\<exists>mixed. mix_labels (box_lam (dims ex_images) (0, 2, 1, 4)) [0, 2] (randperm ex_draws) = Inr mixed"
    by (simp add: mix_labels_def vselect_def vadd_def vscale_def ex_draws_def)
  then obtain mixed where
    ml: "mix_labels (box_lam (dims ex_images) (0, 2, 1, 4)) [0, 2] (randperm ex_draws) = Inr mixed"
    by blast
  from cutmix_Inr[OF ex_lookup rb ml] show ?thesis by (simp add: ex_store_def)
qed

lemma ex_mixup_runs:
  "\<exists>s'. mixup ex_store 0 1 1 ex_draws = Inr (s', 2, 3)"
proof -
  have "\<exists>mixed. mix_labels (if (1::real) > 0 then beta_draw ex_draws else 1) [0, 2] (randperm ex_draws) = Inr mixed"
    by (simp add: mix_labels_def vselect_def vadd_def vscale_def ex_draws_def)
  then obtain mixed where
    ml: "mix_labels (if (1::real) > 0 then beta_draw ex_draws else 1) [0, 2] (randperm ex_draws) = Inr mixed"
    by blast
  from mixup_Inr[OF ex_lookup ml] show ?thesis by (simp add: ex_store_def)
qed

lemma assign_box_elems:
  "dims (assign_box t box (select4 t index)) = dims t \<and>
   elems (assign_box t box (select4 t index)) b c x y
     = (if in_box box x y then elems t (index ! b) c x y else elems t b c x y)"
  by (cases "dims t") (simp add: assign_box_def select4_def)

section \<open>Lemmas about the training step\<close>

subsection \<open>The log of one batch and of one epoch\<close>

lemma train_batch_steps:
  assumes "train_batch cfg col n d b acc = Inr acc'"
  shows "\<exists>out ys. forward_batch cfg col n d b = Inr (out, ys) \<and>
           steps acc' = steps acc @ [Zero_grad, Forward, Backward (composed_loss cfg col out ys),
                                    Clip_grad_norm, Optimizer_step, Scheduler_step]"
proof -
  from assms obtain out ys where f: "forward_batch cfg col n d b = Inr (out, ys)"
    by (auto simp: train_batch_def split: sum.splits)
  with assms obtain predicted where "collect (map argmax_row (logits out)) = Inr predicted"
    by (auto simp: train_batch_def Let_def split: sum.splits)
  with assms f have "steps acc' = steps acc @ [Zero_grad, Forward, Backward (composed_loss cfg col out ys),
                                    Clip_grad_norm, Optimizer_step, Scheduler_step]"
    by (auto simp: train_batch_def Let_def composed_loss_def split: option.splits)
  with f show ?thesis by blast
qed

lemma train_batches_steps:
  "train_batches cfg col ds n bs acc = Inr acc' \<Longrightarrow>
   \<exists>new. steps acc' = steps acc @ new \<and>
     list_all2 (\<lambda>l (j, b). \<exists>out ys. forward_batch cfg col j (ds j) b = Inr (out, ys) \<and>
                               l = composed_loss cfg col out ys)
       (backward_losses new) (zip [n..<n + length bs] bs)"
proof (induction bs arbitrary: n acc)
  case Nil
  then show ?case by simp
next
  case (Cons b bs)
  from Cons.prems obtain acc1 where
    one: "train_batch cfg col n (ds n) b acc = Inr acc1"
    and rest: "train_batches cfg col ds (Suc n) bs acc1 = Inr acc'"
    by (auto split: sum.splits)
  from train_batch_steps[OF one] obtain out ys where
    f: "forward_batch cfg col n (ds n) b = Inr (out, ys)"
    and s1: "steps acc1 = steps acc @ [Zero_grad, Forward, Backward (composed_loss cfg col out ys),
                                    Clip_grad_norm, Optimizer_step, Scheduler_step]"
    by blast
  from Cons.IH[OF rest] obtain new where
    s2: "steps acc' = steps acc1 @ new"
    and l: "list_all2 (\<lambda>l (j, b). \<exists>out ys. forward_batch cfg col j (ds j) b = Inr (out, ys) \<and>
                               l = composed_loss cfg col out ys)
       (backward_losses new) (zip [Suc n..<Suc n + length bs] bs)"
    by blast
  let ?new = "[Zero_grad, Forward, Backward (composed_loss cfg col out ys),
               Clip_grad_norm, Optimizer_step, Scheduler_step] @ new"
  have u: "[n..<n + length (b # bs)] = n # [Suc n..<n + length (b # bs)]"
    by (rule upt_conv_Cons) simp
  have z: "zip [n..<n + length (b # bs)] (b # bs) = (n, b) # zip [Suc n..<Suc n + length bs] bs"
    by (subst u) simp
  have "steps acc' = steps acc @ ?new" using s1 s2 by simp
  moreover have "list_all2 (\<lambda>l (j, b). \<exists>out ys. forward_batch cfg col j (ds j) b = Inr (out, ys) \<and>
                               l = composed_loss cfg col out ys)
       (backward_losses ?new) (zip [n..<n + length (b # bs)] (b # bs))"
    unfolding z using f l by simp
  ultimately show ?case by blast
qed

lemma ex_epoch_runs:
  "\<exists>r. train_epoch ex_train_cfg ex_components (\<lambda>n. ex_step_draws) [ex_batch] = Inr r"
  by (simp add: train_epoch_def train_batch_def forward_batch_def batch_store_def mixup_def lookup_def
      mix_labels_def vselect_def vadd_def vscale_def alloc_def argmax_row_def Let_def py_int_def
      ex_train_cfg_def cfg_of_def ex_components_def ex_step_draws_def ex_draws_def ex_batch_def)

section \<open>The properties of the specification\<close>

subsection \<open>Early stopping\<close>

text \<open>
  Claim C1, as amended. For a run of \<open>train()\<close> on a newly constructed trainer with
  \<open>EARLY_STOP_PATIENCE \<ge> 1\<close>: the loop runs at most \<open>NUM_EPOCHS\<close> epochs; it leaves
  through \<open>break\<close> exactly when some epoch among them completes \<open>EARLY_STOP_PATIENCE\<close>
  consecutive epochs whose validation loss failed to improve on the best seen so far,
  and then it stops at the first such epoch, otherwise it runs all \<open>NUM_EPOCHS\<close> epochs;
  every pass through the body sets the patience counter to 0 when the validation loss
  is strictly below the best and adds 1 to it otherwise; and after any number of epochs
  the counter lies between 0 and \<open>EARLY_STOP_PATIENCE\<close>.
\<close>

theorem early_stopping:
  assumes "1 \<le> EARLY_STOP_PATIENCE cfg"
  shows "epochs_executed (snd (run_epochs cfg env init_trainer)) \<le> nat (NUM_EPOCHS cfg) \<and>
         (fst (run_epochs cfg env init_trainer) \<longleftrightarrow>
            (\<exists>k < nat (NUM_EPOCHS cfg). stalled (nat (EARLY_STOP_PATIENCE cfg)) env k)) \<and>
         epochs_executed (snd (run_epochs cfg env init_trainer)) =
           (if \<exists>k < nat (NUM_EPOCHS cfg). stalled (nat (EARLY_STOP_PATIENCE cfg)) env k
            then Suc (LEAST k. stalled (nat (EARLY_STOP_PATIENCE cfg)) env k)
            else nat (NUM_EPOCHS cfg)) \<and>
         (\<forall>k st. patience_counter (snd (epoch_body cfg env k st)) =
            (if float_lt (val_loss (env k)) (best_val_loss st) then 0
             else patience_counter st + 1)) \<and>
         (\<forall>k. 0 \<le> patience_counter (snd (after_epochs cfg env k init_trainer)) \<and>
              patience_counter (snd (after_epochs cfg env k init_trainer))
                \<le> EARLY_STOP_PATIENCE cfg)"
  using executed_le[of cfg env] loop_length[OF assms, of env] counter_bounded[OF assms, of env]
    epoch_body_fields(2)[of cfg env]
  by blast

text \<open>
  A run with patience 2 over the validation losses 3, 2, 2, 4, 1: epochs 2 and 3 fail to
  improve, and the loop leaves in its fourth epoch.
\<close>

theorem early_stopping_witness:
  "1 \<le> EARLY_STOP_PATIENCE (cfg_of 5 2) \<and>
   fst (run_epochs (cfg_of 5 2) (env_of_val_losses [Finite 3, Finite 2, Finite 2, Finite 4, Finite 1]) init_trainer) \<and>
   epochs_executed (snd (run_epochs (cfg_of 5 2) (env_of_val_losses [Finite 3, Finite 2, Finite 2, Finite 4, Finite 1]) init_trainer)) = 4 \<and>
   patience_counter (snd (run_epochs (cfg_of 5 2) (env_of_val_losses [Finite 3, Finite 2, Finite 2, Finite 4, Finite 1]) init_trainer)) \<le> 2"
proof -
  have h: "1 \<le> EARLY_STOP_PATIENCE (cfg_of 5 2)" by (simp add: cfg_of_def)
  have "patience_counter (snd (after_epochs (cfg_of 5 2) (env_of_val_losses [Finite 3, Finite 2, Finite 2, Finite 4, Finite 1]) 5 init_trainer)) \<le> EARLY_STOP_PATIENCE (cfg_of 5 2)"
    using early_stopping[OF h] by blast
  then have "patience_counter (snd (run_epochs (cfg_of 5 2) (env_of_val_losses [Finite 3, Finite 2, Finite 2, Finite 4, Finite 1]) init_trainer)) \<le> 2"
    by (simp add: run_epochs_after cfg_of_def)
  moreover have "fst (run_epochs (cfg_of 5 2) (env_of_val_losses [Finite 3, Finite 2, Finite 2, Finite 4, Finite 1]) init_trainer)"
    by (simp add: run_simps)
  moreover have "epochs_executed (snd (run_epochs (cfg_of 5 2) (env_of_val_losses [Finite 3, Finite 2, Finite 2, Finite 4, Finite 1]) init_trainer)) = 4"
    by (simp add: run_simps)
  ultimately show ?thesis using h by blast
qed

text \<open>
  The claim as first stated fails in two ways. With \<open>EARLY_STOP_PATIENCE = 0\<close> and the
  validation losses 1, 2 the first epoch improves, after which zero consecutive epochs
  have failed to improve, yet the loop goes on to a second epoch and leaves it with the
  counter at 1, above the patience. And the counter is set to 0 in \<open>__init__\<close>, not in
  \<open>train()\<close>: with patience 1, a run over the losses 1, 2 stops with the counter at 1,
  and a second run of \<open>train()\<close> on the same trainer, with a first loss of 3, raises
  it to 2.
\<close>

theorem early_stopping_counterexample:
  "EARLY_STOP_PATIENCE (cfg_of 2 0) = 0 \<and>
   stalled (nat (EARLY_STOP_PATIENCE (cfg_of 2 0))) (env_of_val_losses [Finite 1, Finite 2]) 0 \<and>
   epochs_executed (snd (run_epochs (cfg_of 2 0) (env_of_val_losses [Finite 1, Finite 2]) init_trainer)) = 2 \<and>
   patience_counter (snd (run_epochs (cfg_of 2 0) (env_of_val_losses [Finite 1, Finite 2]) init_trainer)) = 1 \<and>
   EARLY_STOP_PATIENCE (cfg_of 2 1) = 1 \<and>
   patience_counter (snd (run_epochs (cfg_of 2 1) (env_of_val_losses [Finite 1, Finite 2]) init_trainer)) = 1 \<and>
   patience_counter (snd (run_epochs (cfg_of 2 1) (env_of_val_losses [Finite 3])
     (snd (run_epochs (cfg_of 2 1) (env_of_val_losses [Finite 1, Finite 2]) init_trainer)))) = 2"
  by (simp add: run_simps stalled_def)

subsection \<open>Checkpoints\<close>

text \<open>
  Claim C4, as amended. For every run of \<open>train()\<close>, from any trainer state and whatever
  the validation losses: \<open>best_val_loss\<close> never increases, from one epoch to the next it
  stays or becomes strictly smaller; and among the calls of the run,
  \<open>model_epoch_{k+1}.pt\<close> is written in epoch \<open>k\<close> (and no other per-epoch file there)
  exactly when epoch \<open>k\<close> is executed and is not the epoch that leaves the loop through
  \<open>break\<close>. For a run on a newly constructed trainer in which no validation loss is NaN
  or \<open>+inf\<close>, \<open>best_model.pt\<close> is written in exactly those executed epochs whose
  validation loss is strictly less than every previous epoch's validation loss.
\<close>

theorem checkpoint_bookkeeping:
  "(\<forall>k st. best_val_loss (snd (after_epochs cfg env (Suc k) st))
             = best_val_loss (snd (after_epochs cfg env k st)) \<or>
           float_lt (best_val_loss (snd (after_epochs cfg env (Suc k) st)))
                    (best_val_loss (snd (after_epochs cfg env k st)))) \<and>
   ((\<forall>k < nat (NUM_EPOCHS cfg). val_loss (env k) \<noteq> NaN \<and> val_loss (env k) \<noteq> PosInf) \<longrightarrow>
    (\<forall>k. (In_epoch k, Save_model Best_model)
            \<in> set (effects (snd (run_epochs cfg env init_trainer))) \<longleftrightarrow>
          k < epochs_executed (snd (run_epochs cfg env init_trainer)) \<and>
          (\<forall>j<k. float_lt (val_loss (env k)) (val_loss (env j))))) \<and>
   (\<forall>st k j. (In_epoch k, Save_model (Model_epoch j))
            \<in> set (new_calls st (snd (run_epochs cfg env st))) \<longleftrightarrow>
          j = k + 1 \<and> k < epochs_run st (snd (run_epochs cfg env st)) \<and>
          \<not> (fst (run_epochs cfg env st) \<and>
             Suc k = epochs_run st (snd (run_epochs cfg env st))))"
proof (intro conjI impI allI)
  fix k st
  show "best_val_loss (snd (after_epochs cfg env (Suc k) st))
             = best_val_loss (snd (after_epochs cfg env k st)) \<or>
           float_lt (best_val_loss (snd (after_epochs cfg env (Suc k) st)))
                    (best_val_loss (snd (after_epochs cfg env k st)))"
    by (rule best_non_increasing)
next
  fix k
  assume h: "\<forall>k < nat (NUM_EPOCHS cfg). val_loss (env k) \<noteq> NaN \<and> val_loss (env k) \<noteq> PosInf"
  show "(In_epoch k, Save_model Best_model)
          \<in> set (effects (snd (run_epochs cfg env init_trainer))) \<longleftrightarrow>
        k < epochs_executed (snd (run_epochs cfg env init_trainer)) \<and>
        (\<forall>j<k. float_lt (val_loss (env k)) (val_loss (env j)))"
  proof (cases "k < epochs_executed (snd (run_epochs cfg env init_trainer))")
    case True
    with executed_le[of cfg env] have "k < nat (NUM_EPOCHS cfg)" by simp
    with h have "\<forall>j \<le> k. val_loss (env j) \<noteq> NaN \<and> val_loss (env j) \<noteq> PosInf" by simp
    from improved_iff_below_all[OF this] True show ?thesis
      by (simp add: best_model_written)
  next
    case False
    then show ?thesis by (simp add: best_model_written)
  qed
next
  fix st k j
  show "(In_epoch k, Save_model (Model_epoch j))
            \<in> set (new_calls st (snd (run_epochs cfg env st))) \<longleftrightarrow>
          j = k + 1 \<and> k < epochs_run st (snd (run_epochs cfg env st)) \<and>
          \<not> (fst (run_epochs cfg env st) \<and>
             Suc k = epochs_run st (snd (run_epochs cfg env st)))"
    by (rule epoch_checkpoint_written_from)
qed

text \<open>
  The run of a new trainer with patience 2 over the validation losses 3, 2, 2, 4, 1: the
  second epoch writes the best model, the third does not; the third epoch writes
  \<open>model_epoch_3.pt\<close>, and the fourth, which stops the run, writes no per-epoch
  checkpoint. The best validation loss after three epochs is that after two.
\<close>

theorem checkpoint_bookkeeping_witness:
  "NaN \<notin> set [Finite 3, Finite 2, Finite 2, Finite 4, Finite 1] \<and>
   PosInf \<notin> set [Finite 3, Finite 2, Finite 2, Finite 4, Finite 1] \<and>
   (In_epoch 1, Save_model Best_model)
     \<in> set (effects (snd (run_epochs (cfg_of 5 2)
           (env_of_val_losses [Finite 3, Finite 2, Finite 2, Finite 4, Finite 1]) init_trainer))) \<and>
   (In_epoch 2, Save_model Best_model)
     \<notin> set (effects (snd (run_epochs (cfg_of 5 2)
           (env_of_val_losses [Finite 3, Finite 2, Finite 2, Finite 4, Finite 1]) init_trainer))) \<and>
   (In_epoch 2, Save_model (Model_epoch 3))
     \<in> set (new_calls init_trainer (snd (run_epochs (cfg_of 5 2)
           (env_of_val_losses [Finite 3, Finite 2, Finite 2, Finite 4, Finite 1]) init_trainer))) \<and>
   (In_epoch 3, Save_model (Model_epoch 4))
     \<notin> set (new_calls init_trainer (snd (run_epochs (cfg_of 5 2)
           (env_of_val_losses [Finite 3, Finite 2, Finite 2, Finite 4, Finite 1]) init_trainer))) \<and>
   best_val_loss (snd (after_epochs (cfg_of 5 2)
       (env_of_val_losses [Finite 3, Finite 2, Finite 2, Finite 4, Finite 1]) 3 init_trainer)) = Finite 2"
proof -
  let ?vs = "[Finite 3, Finite 2, Finite 2, Finite 4, Finite 1]"
  let ?run = "run_epochs (cfg_of 5 2) (env_of_val_losses ?vs) init_trainer"
  have h: "\<forall>k < nat (NUM_EPOCHS (cfg_of 5 2)).
      val_loss (env_of_val_losses ?vs k) \<noteq> NaN \<and> val_loss (env_of_val_losses ?vs k) \<noteq> PosInf"
  proof (intro allI impI)
    fix k assume "k < nat (NUM_EPOCHS (cfg_of 5 2))"
    then have k: "k < length ?vs" by (simp add: cfg_of_def)
    then have "?vs ! k \<in> set ?vs" by (rule nth_mem)
    then show "val_loss (env_of_val_losses ?vs k) \<noteq> NaN \<and> val_loss (env_of_val_losses ?vs k) \<noteq> PosInf"
      unfolding env_of_val_losses_nth[OF k] by auto
  qed
  note all = checkpoint_bookkeeping[of "cfg_of 5 2" "env_of_val_losses ?vs"]
  note t = all[THEN conjunct2, THEN conjunct1, THEN mp, OF h]
  note u = all[THEN conjunct2, THEN conjunct2, rule_format, of _ _ init_trainer]
  note v = all[THEN conjunct1, rule_format, of 2 init_trainer]
  have ex: "epochs_executed (snd ?run) = 4"
    and er: "epochs_run init_trainer (snd ?run) = 4"
    and br: "fst ?run"
    by (simp_all add: run_simps epochs_run_def new_calls_def)
  have "\<forall>j<(1::nat). float_lt (val_loss (env_of_val_losses ?vs 1)) (val_loss (env_of_val_losses ?vs j))"
    by (simp add: env_of_val_losses_def)
  with t ex have a: "(In_epoch 1, Save_model Best_model) \<in> set (effects (snd ?run))"
    by simp
  have "\<not> (\<forall>j<(2::nat). float_lt (val_loss (env_of_val_losses ?vs 2)) (val_loss (env_of_val_losses ?vs j)))"
    by (auto simp: env_of_val_losses_def intro!: exI[of _ 1])
  with t have b: "(In_epoch 2, Save_model Best_model) \<notin> set (effects (snd ?run))"
    by blast
  from u[of 2 3] er have c: "(In_epoch 2, Save_model (Model_epoch 3))
     \<in> set (new_calls init_trainer (snd ?run))"
    by simp
  from u[of 3 4] er br have d: "(In_epoch 3, Save_model (Model_epoch 4))
     \<notin> set (new_calls init_trainer (snd ?run))"
    by simp
  have two: "best_val_loss (snd (after_epochs (cfg_of 5 2) (env_of_val_losses ?vs) 2 init_trainer))
               = Finite 2"
    by (simp add: run_simps numeral_2_eq_2)
  have "\<not> float_lt x (Finite 2) \<or> x \<noteq> Finite 2" for x by auto
  with v two have e: "best_val_loss (snd (after_epochs (cfg_of 5 2)
       (env_of_val_losses ?vs) 3 init_trainer)) = Finite 2 \<or>
     float_lt (best_val_loss (snd (after_epochs (cfg_of 5 2)
       (env_of_val_losses ?vs) 3 init_trainer))) (Finite 2)"
    by (simp add: eval_nat_numeral)
  have "\<not> float_lt (best_val_loss (snd (after_epochs (cfg_of 5 2)
       (env_of_val_losses ?vs) 3 init_trainer))) (Finite 2)"
    by (simp add: run_simps numeral_3_eq_3)
  with e have f: "best_val_loss (snd (after_epochs (cfg_of 5 2)
       (env_of_val_losses ?vs) 3 init_trainer)) = Finite 2" by blast
  from a b c d f show ?thesis by simp
qed

text \<open>
  The claim as first stated fails in three ways. With the validation losses NaN, 1 the
  first epoch writes no best model (NaN is not below \<open>+inf\<close>) although it has no previous
  epoch, and the second epoch writes it although 1 is not strictly less than the first
  epoch's NaN. With a first validation loss of \<open>+inf\<close> the first epoch writes no best
  model either. And \<open>best_val_loss\<close> is set in \<open>__init__\<close>, not in \<open>train()\<close>: after a
  run with the loss 1, a second run of \<open>train()\<close> on the same trainer with the loss 2
  writes no best model in its first epoch.
\<close>

theorem checkpoint_bookkeeping_counterexample:
  "epochs_executed (snd (run_epochs (cfg_of 2 5) (env_of_val_losses [NaN, Finite 1]) init_trainer)) = 2 \<and>
   (In_epoch 0, Save_model Best_model)
     \<notin> set (effects (snd (run_epochs (cfg_of 2 5) (env_of_val_losses [NaN, Finite 1]) init_trainer))) \<and>
   (In_epoch 1, Save_model Best_model)
     \<in> set (effects (snd (run_epochs (cfg_of 2 5) (env_of_val_losses [NaN, Finite 1]) init_trainer))) \<and>
   \<not> float_lt (val_loss (env_of_val_losses [NaN, Finite 1] 1))
               (val_loss (env_of_val_losses [NaN, Finite 1] 0)) \<and>
   epochs_executed (snd (run_epochs (cfg_of 1 5) (env_of_val_losses [PosInf]) init_trainer)) = 1 \<and>
   (In_epoch 0, Save_model Best_model)
     \<notin> set (effects (snd (run_epochs (cfg_of 1 5) (env_of_val_losses [PosInf]) init_trainer))) \<and>
   (In_epoch 0, Save_model Best_model)
     \<notin> set (new_calls (snd (run_epochs (cfg_of 1 5) (env_of_val_losses [Finite 1]) init_trainer))
          (snd (run_epochs (cfg_of 1 5) (env_of_val_losses [Finite 2])
             (snd (run_epochs (cfg_of 1 5) (env_of_val_losses [Finite 1]) init_trainer))))) \<and>
   epochs_run (snd (run_epochs (cfg_of 1 5) (env_of_val_losses [Finite 1]) init_trainer))
     (snd (run_epochs (cfg_of 1 5) (env_of_val_losses [Finite 2])
        (snd (run_epochs (cfg_of 1 5) (env_of_val_losses [Finite 1]) init_trainer)))) = 1"
  by (simp add: run_simps new_calls_def epochs_run_def)

subsection \<open>The final evaluation\<close>

text \<open>
  Claim C7, as amended. For every run of \<open>train()\<close> that returns, from any trainer state:
  the calls of the run are those of the \<open>m \<le> NUM_EPOCHS\<close> epochs it executed, each made
  inside its epoch and none of them an evaluation or a reload, followed by the reload of
  \<open>best_model.pt\<close>, then the evaluation of the test split, then that of the noisy test
  split; the returned histories are the trainer's histories extended by one entry per
  executed epoch; and \<open>test_results\<close> and \<open>noise_test_results\<close> are what \<open>evaluate\<close>
  returns on the respective loader, each holding the accuracy and the macro F1 of that
  split and, as \<open>auc\<close>, its macro one-vs-rest AUC when the one-hot encoding of the labels
  and \<open>roc_auc_score\<close> both return, and 0 when either raises.
\<close>

theorem final_evaluation:
  assumes "train cfg env lib best test_loader noise_test_loader st0 = Inr (out, st)"
  shows "\<exists>m es. m \<le> nat (NUM_EPOCHS cfg) \<and>
           effects st = effects st0 @ es @
             [(After_loop, Load_model Best_model), (After_loop, Evaluate Test_split),
              (After_loop, Evaluate Noisy_test_split)] \<and>
           es = new_calls st0 (snd (run_epochs cfg env st0)) \<and>
           length (filter (\<lambda>e. snd e = Train_epoch) es) = m \<and>
           (\<forall>e \<in> set es. \<exists>k<m. fst e = In_epoch k \<and>
              snd e \<in> {Train_epoch, Validate, Save_model Best_model, Save_model (Model_epoch (k + 1)),
                       Save_training_curves, Analyze_modal_weights}) \<and>
           out_train_losses out = train_losses st0 @ map (\<lambda>k. train_loss (env k)) [0..<m] \<and>
           out_val_losses out = val_losses st0 @ map (\<lambda>k. val_loss (env k)) [0..<m] \<and>
           out_train_accuracies out = train_accuracies st0 @ map (\<lambda>k. train_acc (env k)) [0..<m] \<and>
           out_val_accuracies out = val_accuracies st0 @ map (\<lambda>k. val_acc (env k)) [0..<m] \<and>
           out_alpha_history out = alpha_history st0 @ concat (map (\<lambda>k. alpha_values (env k)) [0..<m]) \<and>
           evaluate cfg lib best test_loader = Inr (test_results out) \<and>
           evaluate cfg lib best noise_test_loader = Inr (noise_test_results out) \<and>
           metrics_of_split cfg lib best test_loader (test_results out) \<and>
           metrics_of_split cfg lib best noise_test_loader (noise_test_results out)"
proof -
  let ?st1 = "snd (run_epochs cfg env st0)"
  let ?es = "new_calls st0 ?st1"
  from assms obtain test noise where
    ev: "evaluate cfg lib best test_loader = Inr test"
        "evaluate cfg lib best noise_test_loader = Inr noise"
    by (auto simp: train_def Let_def split: sum.splits)
  with assms have out: "test_results out = test" "noise_test_results out = noise"
    "out_train_losses out = train_losses ?st1" "out_val_losses out = val_losses ?st1"
    "out_train_accuracies out = train_accuracies ?st1" "out_val_accuracies out = val_accuracies ?st1"
    "out_alpha_history out = alpha_history ?st1"
    and st: "effects st = effects ?st1 @
             [(After_loop, Load_model Best_model), (After_loop, Evaluate Test_split),
              (After_loop, Evaluate Noisy_test_split)]"
    by (auto simp: train_def Let_def do_call_def)
  from run_epochs_log[where cfg=cfg and env=env and st=st0] obtain m where
    m: "m \<le> nat (NUM_EPOCHS cfg)" and er: "epochs_run st0 ?st1 = m"
    and ext: "extends env [0..<m] st0 ?st1"
    and app: "effects ?st1 = effects st0 @ ?es"
    and calls: "\<forall>e \<in> set ?es. \<exists>k<m. fst e = In_epoch k \<and>
          snd e \<in> {Train_epoch, Validate, Save_model Best_model, Save_model (Model_epoch (k + 1)),
                   Save_training_curves, Analyze_modal_weights}"
    by blast
  from ext have
    h: "train_losses ?st1 = train_losses st0 @ map (\<lambda>k. train_loss (env k)) [0..<m]"
      "val_losses ?st1 = val_losses st0 @ map (\<lambda>k. val_loss (env k)) [0..<m]"
      "train_accuracies ?st1 = train_accuracies st0 @ map (\<lambda>k. train_acc (env k)) [0..<m]"
      "val_accuracies ?st1 = val_accuracies st0 @ map (\<lambda>k. val_acc (env k)) [0..<m]"
      "alpha_history ?st1 = alpha_history st0 @ concat (map (\<lambda>k. alpha_values (env k)) [0..<m])"
    unfolding extends_def by blast+
  from er have cnt: "length (filter (\<lambda>e. snd e = Train_epoch) ?es) = m"
    by (simp add: epochs_run_def)
  from st app have log: "effects st = effects st0 @ ?es @
             [(After_loop, Load_model Best_model), (After_loop, Evaluate Test_split),
              (After_loop, Evaluate Noisy_test_split)]" by simp
  show ?thesis
    using m log cnt calls out h ev evaluate_metrics[OF ev(1)] evaluate_metrics[OF ev(2)]
    by (intro exI[of _ m] exI[of _ ?es]) simp
qed

text \<open>
  A run of two epochs on a new trainer, evaluated on a loader of one batch with a library
  whose AUC is 3/4: the log of calls is that of the two epochs followed by the reload and
  the two evaluations, and the results hold the labels, the accuracy and the AUC.
\<close>

theorem final_evaluation_witness:
  "\<exists>out st.
     train (cfg_of 2 5) (env_of_val_losses [Finite 2, Finite 1]) ex_metrics_auc ex_model
       ex_loader ex_loader init_trainer = Inr (out, st) \<and>
     effects st =
       [(In_epoch 0, Train_epoch), (In_epoch 0, Validate), (In_epoch 0, Save_model Best_model),
        (In_epoch 0, Save_model (Model_epoch 1)), (In_epoch 0, Save_training_curves),
        (In_epoch 0, Analyze_modal_weights),
        (In_epoch 1, Train_epoch), (In_epoch 1, Validate), (In_epoch 1, Save_model Best_model),
        (In_epoch 1, Save_model (Model_epoch 2)), (In_epoch 1, Save_training_curves),
        (In_epoch 1, Analyze_modal_weights),
        (After_loop, Load_model Best_model), (After_loop, Evaluate Test_split),
        (After_loop, Evaluate Noisy_test_split)] \<and>
     out_val_losses out = [Finite 2, Finite 1] \<and>
     evaluate (cfg_of 2 5) ex_metrics_auc ex_model ex_loader = Inr (test_results out) \<and>
     labels (noise_test_results out) = [1, 2] \<and>
     accuracy (test_results out) =
       accuracy_score ex_metrics_auc (labels (test_results out)) (predictions (test_results out)) \<and>
     auc (test_results out) = 3 / 4 \<and> auc (noise_test_results out) = 3 / 4"
proof -
  let ?cfg = "cfg_of 2 5" and ?env = "env_of_val_losses [Finite 2, Finite 1]"
  let ?calls = "[(In_epoch 0, Train_epoch), (In_epoch 0, Validate), (In_epoch 0, Save_model Best_model),
        (In_epoch 0, Save_model (Model_epoch 1)), (In_epoch 0, Save_training_curves),
        (In_epoch 0, Analyze_modal_weights),
        (In_epoch 1, Train_epoch), (In_epoch 1, Validate), (In_epoch 1, Save_model Best_model),
        (In_epoch 1, Save_model (Model_epoch 2)), (In_epoch 1, Save_training_curves),
        (In_epoch 1, Analyze_modal_weights)]"
  have "\<exists>r. train ?cfg ?env ex_metrics_auc ex_model ex_loader ex_loader init_trainer = Inr r"
    by (simp add: train_def evaluate_def ex_loader_def ex_model_def argmax_row_def Let_def)
  then obtain out st where
    h: "train ?cfg ?env ex_metrics_auc ex_model ex_loader ex_loader init_trainer = Inr (out, st)"
    by fastforce
  have nc: "new_calls init_trainer (snd (run_epochs ?cfg ?env init_trainer)) = ?calls"
    by (simp add: run_simps new_calls_def)
  have hot: "one_hot (NUM_CLASSES ?cfg) [1, 2] = Some [[0, 1, 0], [0, 0, 1]]"
    by (simp add: one_hot_def cfg_of_def upt_rec)
  from final_evaluation[OF h] obtain m es where
    e: "effects st = effects init_trainer @ es @
             [(After_loop, Load_model Best_model), (After_loop, Evaluate Test_split),
              (After_loop, Evaluate Noisy_test_split)]"
      "es = new_calls init_trainer (snd (run_epochs ?cfg ?env init_trainer))"
      "length (filter (\<lambda>e. snd e = Train_epoch) es) = m"
      "out_val_losses out = val_losses init_trainer @ map (\<lambda>k. val_loss (?env k)) [0..<m]"
    and r: "evaluate ?cfg ex_metrics_auc ex_model ex_loader = Inr (test_results out)"
      "metrics_of_split ?cfg ex_metrics_auc ex_model ex_loader (test_results out)"
      "metrics_of_split ?cfg ex_metrics_auc ex_model ex_loader (noise_test_results out)"
    by blast
  from e(2) nc have es: "es = ?calls" by simp
  with e(3) have m: "m = 2" by simp
  from e(1) es have log: "effects st = ?calls @
             [(After_loop, Load_model Best_model), (After_loop, Evaluate Test_split),
              (After_loop, Evaluate Noisy_test_split)]"
    by (simp add: init_trainer_def)
  from e(4) m have vl: "out_val_losses out = [Finite 2, Finite 1]"
    by (simp add: init_trainer_def env_of_val_losses_def upt_rec)
  from r(2,3) hot have a: "labels (noise_test_results out) = [1, 2]"
    "accuracy (test_results out) =
       accuracy_score ex_metrics_auc (labels (test_results out)) (predictions (test_results out))"
    "auc (test_results out) = 3 / 4" "auc (noise_test_results out) = 3 / 4"
    by (simp_all add: metrics_of_split_def ex_loader_def ex_metrics_auc_def)
  from h log vl r(1) a show ?thesis
    by (intro exI[of _ out] exI[of _ st]) simp
qed

text \<open>
  The claim as first stated fails where the AUC is not computed. On a test loader with
  the labels 1 and 3 and \<open>NUM_CLASSES = 3\<close>, the one-hot encoding raises inside the
  \<open>try\<close> block: the run completes and \<open>test_results\<close> holds \<open>auc = 0\<close>, though the
  library's AUC would be 3/4 on every input. On a loader with the labels 1 and 2 and a library
  whose \<open>roc_auc_score\<close> raises, the run completes and holds \<open>auc = 0\<close> as well.
\<close>

theorem final_evaluation_counterexample:
  "(case train (cfg_of 1 5) (env_of_val_losses [Finite 1]) ex_metrics_auc ex_model
           ex_loader_label3 ex_loader init_trainer of
      Inl e \<Rightarrow> False
    | Inr (out, st) \<Rightarrow>
        auc (test_results out) = 0 \<and>
        \<not> holds_auc_of_split (cfg_of 1 5) ex_metrics_auc (test_results out)) \<and>
   (case train (cfg_of 1 5) (env_of_val_losses [Finite 1]) ex_metrics ex_model
           ex_loader ex_loader init_trainer of
      Inl e \<Rightarrow> False
    | Inr (out, st) \<Rightarrow>
        auc (test_results out) = 0 \<and>
        \<not> holds_auc_of_split (cfg_of 1 5) ex_metrics (test_results out))"
  by (simp add: train_def evaluate_def ex_loader_def ex_loader_label3_def ex_model_def
      argmax_row_def Let_def holds_auc_of_split_def one_hot_def cfg_of_def ex_metrics_auc_def
      ex_metrics_def upt_rec)

subsection \<open>Class weights\<close>

text \<open>
  Claim C3, as amended, with the arithmetic taken over the real numbers. When
  \<open>USE_CLASS_WEIGHTS\<close> is false, \<open>_calculate_class_weights\<close> returns \<open>None\<close>. When it is
  true, \<open>NUM_CLASSES \<ge> 3\<close>, every training label lies in \<open>0 .. NUM_CLASSES - 1\<close>, every
  class has a positive count and, for the method \<open>effective_samples\<close>,
  \<open>-1 < beta < 1\<close>: the weights before normalisation are \<open>1/sqrt(count_i)\<close> for
  \<open>inverse_sqrt\<close>, \<open>(1-beta)/(1-beta^count_i)\<close> for \<open>effective_samples\<close> and
  \<open>1/count_i\<close> for \<open>inverse\<close> and every other method name; the method returns these
  weights divided by their sum and multiplied by \<open>NUM_CLASSES\<close>, a vector of
  \<open>NUM_CLASSES\<close> finite entries that sum to \<open>NUM_CLASSES\<close>.
\<close>

theorem class_weights:
  "(\<not> USE_CLASS_WEIGHTS cfg \<longrightarrow> calculate_class_weights cfg train_loader = Inr None) \<and>
   (USE_CLASS_WEIGHTS cfg \<and> 3 \<le> NUM_CLASSES cfg \<and>
    (\<forall>l \<in> set (concat (map label train_loader)). 0 \<le> l \<and> l < NUM_CLASSES cfg) \<and>
    (\<forall>i < nat (NUM_CLASSES cfg). 0 < class_count train_loader i) \<and>
    (CLASS_WEIGHT_METHOD cfg = ''effective_samples'' \<longrightarrow>
       - 1 < EFFECTIVE_NUM_BETA cfg \<and> EFFECTIVE_NUM_BETA cfg < 1) \<longrightarrow>
    (\<exists>pre ws.
       raw_weights cfg (map (class_count train_loader) [0..<nat (NUM_CLASSES cfg)]) = map Finite pre \<and>
       pre = map (\<lambda>i. if CLASS_WEIGHT_METHOD cfg = ''inverse_sqrt''
                        then 1 / sqrt (real (class_count train_loader i))
                      else if CLASS_WEIGHT_METHOD cfg = ''effective_samples''
                        then (1 - EFFECTIVE_NUM_BETA cfg)
                             / (1 - EFFECTIVE_NUM_BETA cfg ^ class_count train_loader i)
                      else 1 / real (class_count train_loader i))
                 [0..<nat (NUM_CLASSES cfg)] \<and>
       calculate_class_weights cfg train_loader = Inr (Some (map Finite ws)) \<and>
       ws = map (\<lambda>w. w / sum_list pre * real_of_int (NUM_CLASSES cfg)) pre \<and>
       length ws = nat (NUM_CLASSES cfg) \<and>
       sum_list ws = real_of_int (NUM_CLASSES cfg)))"
proof (intro conjI impI)
  assume "\<not> USE_CLASS_WEIGHTS cfg"
  then show "calculate_class_weights cfg train_loader = Inr None"
    by (simp add: calculate_class_weights_def)
next
  let ?n = "nat (NUM_CLASSES cfg)"
  let ?pre = "map (pre_weight cfg) (map (class_count train_loader) [0..<?n])"
  assume h: "USE_CLASS_WEIGHTS cfg \<and> 3 \<le> NUM_CLASSES cfg \<and>
    (\<forall>l \<in> set (concat (map label train_loader)). 0 \<le> l \<and> l < NUM_CLASSES cfg) \<and>
    (\<forall>i < nat (NUM_CLASSES cfg). 0 < class_count train_loader i) \<and>
    (CLASS_WEIGHT_METHOD cfg = ''effective_samples'' \<longrightarrow>
       - 1 < EFFECTIVE_NUM_BETA cfg \<and> EFFECTIVE_NUM_BETA cfg < 1)"
  then have a: "USE_CLASS_WEIGHTS cfg" "3 \<le> NUM_CLASSES cfg"
    "\<forall>l \<in> set (concat (map label train_loader)). 0 \<le> l \<and> l < NUM_CLASSES cfg"
    "\<forall>i < nat (NUM_CLASSES cfg). 0 < class_count train_loader i"
    "CLASS_WEIGHT_METHOD cfg = ''effective_samples'' \<longrightarrow>
       - 1 < EFFECTIVE_NUM_BETA cfg \<and> EFFECTIVE_NUM_BETA cfg < 1"
    by blast+
  note r = class_weights_used[OF a]
  have "?pre = map (\<lambda>i. if CLASS_WEIGHT_METHOD cfg = ''inverse_sqrt''
                        then 1 / sqrt (real (class_count train_loader i))
                      else if CLASS_WEIGHT_METHOD cfg = ''effective_samples''
                        then (1 - EFFECTIVE_NUM_BETA cfg)
                             / (1 - EFFECTIVE_NUM_BETA cfg ^ class_count train_loader i)
                      else 1 / real (class_count train_loader i))
                 [0..<?n]"
    by (simp add: pre_weight_def)
  with r show "\<exists>pre ws.
       raw_weights cfg (map (class_count train_loader) [0..<nat (NUM_CLASSES cfg)]) = map Finite pre \<and>
       pre = map (\<lambda>i. if CLASS_WEIGHT_METHOD cfg = ''inverse_sqrt''
                        then 1 / sqrt (real (class_count train_loader i))
                      else if CLASS_WEIGHT_METHOD cfg = ''effective_samples''
                        then (1 - EFFECTIVE_NUM_BETA cfg)
                             / (1 - EFFECTIVE_NUM_BETA cfg ^ class_count train_loader i)
                      else 1 / real (class_count train_loader i))
                 [0..<nat (NUM_CLASSES cfg)] \<and>
       calculate_class_weights cfg train_loader = Inr (Some (map Finite ws)) \<and>
       ws = map (\<lambda>w. w / sum_list pre * real_of_int (NUM_CLASSES cfg)) pre \<and>
       length ws = nat (NUM_CLASSES cfg) \<and>
       sum_list ws = real_of_int (NUM_CLASSES cfg)"
    by (intro exI[of _ ?pre] exI[of _ "map (\<lambda>w. w / sum_list ?pre * real_of_int (NUM_CLASSES cfg)) ?pre"])
       simp
qed

text \<open>
  Three classes with the labels 0, 1, 1, 2: the methods \<open>inverse\<close> and
  \<open>effective_samples\<close> (with \<open>beta = 1/2\<close>) return weights that sum to 3, and without
  \<open>USE_CLASS_WEIGHTS\<close> the method returns \<open>None\<close>.
\<close>

theorem class_weights_witness:
  "(\<exists>ws. calculate_class_weights (weights_cfg 3 ''inverse'' 0) (labels_loader [0, 1, 1, 2])
            = Inr (Some (map Finite ws)) \<and> sum_list ws = 3) \<and>
   (\<exists>ws. calculate_class_weights (weights_cfg 3 ''effective_samples'' (1 / 2)) (labels_loader [0, 1, 1, 2])
            = Inr (Some (map Finite ws)) \<and> sum_list ws = 3) \<and>
   calculate_class_weights ((weights_cfg 3 ''inverse'' 0)\<lparr>USE_CLASS_WEIGHTS := False\<rparr>)
     (labels_loader [0, 1, 1, 2]) = Inr None"
proof -
  have hyp: "USE_CLASS_WEIGHTS (weights_cfg 3 m b) \<and> 3 \<le> NUM_CLASSES (weights_cfg 3 m b) \<and>
    (\<forall>l \<in> set (concat (map label (labels_loader [0, 1, 1, 2]))).
        0 \<le> l \<and> l < NUM_CLASSES (weights_cfg 3 m b)) \<and>
    (\<forall>i < nat (NUM_CLASSES (weights_cfg 3 m b)). 0 < class_count (labels_loader [0, 1, 1, 2]) i)"
    for m b
    using example_counts by (simp add: weights_cfg_def labels_loader_def)
  have b1: "CLASS_WEIGHT_METHOD (weights_cfg 3 ''inverse'' 0) = ''effective_samples'' \<longrightarrow>
       - 1 < EFFECTIVE_NUM_BETA (weights_cfg 3 ''inverse'' 0) \<and>
       EFFECTIVE_NUM_BETA (weights_cfg 3 ''inverse'' 0) < 1"
    by (simp add: weights_cfg_def)
  have b2: "CLASS_WEIGHT_METHOD (weights_cfg 3 ''effective_samples'' (1 / 2)) = ''effective_samples'' \<longrightarrow>
       - 1 < EFFECTIVE_NUM_BETA (weights_cfg 3 ''effective_samples'' (1 / 2)) \<and>
       EFFECTIVE_NUM_BETA (weights_cfg 3 ''effective_samples'' (1 / 2)) < 1"
    by (simp add: weights_cfg_def)
  have n: "real_of_int (NUM_CLASSES (weights_cfg 3 m b)) = 3" for m b
    by (simp add: weights_cfg_def)
  have off: "\<not> USE_CLASS_WEIGHTS ((weights_cfg 3 ''inverse'' 0)\<lparr>USE_CLASS_WEIGHTS := False\<rparr>)"
    by simp
  from class_weights[of "weights_cfg 3 ''inverse'' 0" "labels_loader [0, 1, 1, 2]"] hyp b1
  have w1: "\<exists>ws. calculate_class_weights (weights_cfg 3 ''inverse'' 0) (labels_loader [0, 1, 1, 2])
            = Inr (Some (map Finite ws)) \<and> sum_list ws = 3"
    unfolding n by blast
  from class_weights[of "weights_cfg 3 ''effective_samples'' (1 / 2)" "labels_loader [0, 1, 1, 2]"] hyp b2
  have w2: "\<exists>ws. calculate_class_weights (weights_cfg 3 ''effective_samples'' (1 / 2)) (labels_loader [0, 1, 1, 2])
            = Inr (Some (map Finite ws)) \<and> sum_list ws = 3"
    unfolding n by blast
  from class_weights[of "(weights_cfg 3 ''inverse'' 0)\<lparr>USE_CLASS_WEIGHTS := False\<rparr>"
      "labels_loader [0, 1, 1, 2]"] off
  have w3: "calculate_class_weights ((weights_cfg 3 ''inverse'' 0)\<lparr>USE_CLASS_WEIGHTS := False\<rparr>)
     (labels_loader [0, 1, 1, 2]) = Inr None"
    by blast
  from w1 w2 w3 show ?thesis by blast
qed

text \<open>
  The claim as first stated fails in these ways. With \<open>NUM_CLASSES = 2\<close> and both classes
  present, the log message that reads \<open>label_counts[2]\<close> raises \<open>IndexError\<close>. With a
  label beyond \<open>NUM_CLASSES - 1\<close> that leaves an empty bin, the empty bin's weight is
  infinite and normalisation turns the vector into zeros and a NaN. With
  \<open>effective_samples\<close> and \<open>beta = 1\<close> every weight is \<open>0/0\<close>, that is NaN. With
  \<open>beta = -1\<close> a class with two samples has the weight \<open>2/0\<close>, an infinity, which
  normalisation turns into NaN. With \<open>beta = 2\<close> and 1024 samples per class, or with
  \<open>beta = 2^512\<close> and two samples per class, the power \<open>beta^count\<close> overflows, every
  weight is \<open>(1 - beta)/(-inf) = 0\<close>, their sum is 0 and the method returns three NaN.
\<close>

theorem class_weights_counterexample:
  "USE_CLASS_WEIGHTS (weights_cfg 2 ''inverse'' 0) \<and>
   class_count (labels_loader [0, 1]) 0 = 1 \<and> class_count (labels_loader [0, 1]) 1 = 1 \<and>
   calculate_class_weights (weights_cfg 2 ''inverse'' 0) (labels_loader [0, 1]) = Inl IndexError \<and>
   calculate_class_weights (weights_cfg 3 ''inverse'' 0) (labels_loader [0, 1, 2, 4])
     = Inr (Some [Finite 0, Finite 0, Finite 0, NaN, Finite 0]) \<and>
   calculate_class_weights (weights_cfg 3 ''effective_samples'' 1) (labels_loader [0, 1, 1, 2])
     = Inr (Some [NaN, NaN, NaN]) \<and>
   calculate_class_weights (weights_cfg 3 ''effective_samples'' (- 1)) (labels_loader [0, 1, 1, 2])
     = Inr (Some [Finite 0, NaN, Finite 0]) \<and>
   calculate_class_weights (weights_cfg 3 ''effective_samples'' 2)
       (labels_loader (replicate 1024 0 @ replicate 1024 1 @ replicate 1024 2))
     = Inr (Some [NaN, NaN, NaN]) \<and>
   calculate_class_weights (weights_cfg 3 ''effective_samples'' (2 ^ 512)) (labels_loader [0, 0, 1, 1, 2, 2])
     = Inr (Some [NaN, NaN, NaN])"
  by (simp add: weights_cfg_def labels_loader_def class_count_def calculate_class_weights_def
      bincount_def raw_weights_def fsum_def upt_rec np_power_def float64_overflow_def
      count_list_replicate_if fold_max_replicate del: fold_replicate)

subsection \<open>Mixup\<close>

text \<open>
  Claim C5. For an image batch and a label batch of the same length, with the permutation
  drawn by \<open>torch.randperm(batch_size)\<close>: \<open>_mixup\<close> returns, with one \<open>lam\<close> (the draw
  from the Beta distribution if \<open>alpha > 0\<close>, and 1 otherwise) and one permutation,
  the images \<open>lam * images + (1 - lam) * images[perm]\<close> and the labels
  \<open>lam * labels + (1 - lam) * labels[perm]\<close>, entry by entry; when \<open>alpha \<le> 0\<close> the
  returned images and labels have the values of the inputs.
\<close>

theorem mixup_formula:
  assumes "lookup s imgs = Some (Images t)" and "lookup s lbls = Some (Labels ls)"
    and "length ls = fst (dims t)" and "valid_randperm (fst (dims t)) (randperm d)"
  shows "\<exists>s' ri rl.
           mixup s imgs lbls al d = Inr (s', ri, rl) \<and>
           lookup s' ri = Some (Images (t\<lparr>elems := (\<lambda>b c x y.
               (if al > 0 then beta_draw d else 1) * elems t b c x y
               + (1 - (if al > 0 then beta_draw d else 1)) * elems t (randperm d ! b) c x y)\<rparr>)) \<and>
           lookup s' rl = Some (Labels (map (\<lambda>b.
               (if al > 0 then beta_draw d else 1) * ls ! b
               + (1 - (if al > 0 then beta_draw d else 1)) * ls ! (randperm d ! b)) [0..<length ls])) \<and>
           (al \<le> 0 \<longrightarrow> lookup s' ri = Some (Images t) \<and> lookup s' rl = Some (Labels ls))"
proof -
  let ?lam = "if al > 0 then beta_draw d else 1"
  have vp: "valid_randperm (length ls) (randperm d)" using assms(3,4) by simp
  note ml = mix_labels_same_length[OF vp, of ?lam]
  note run = mixup_Inr[OF assms(1,2) ml]
  have one: "al \<le> 0 \<Longrightarrow>
      map (\<lambda>b. ?lam * ls ! b + (1 - ?lam) * ls ! (randperm d ! b)) [0..<length ls] = ls"
    by (simp add: map_nth)
  show ?thesis
    unfolding run mix_images_elems using one by (intro exI conjI) (auto simp: lookup_def nth_append)
qed

text \<open>The example batch with \<open>alpha = 0\<close>: the values come back unchanged.\<close>

theorem mixup_formula_witness:
  "\<exists>s' ri rl.
     mixup ex_store 0 1 0 ex_draws = Inr (s', ri, rl) \<and>
     lookup s' ri = Some (Images ex_images) \<and> lookup s' rl = Some (Labels [0, 2])"
proof -
  have h: "lookup ex_store 0 = Some (Images ex_images)" "lookup ex_store 1 = Some (Labels [0, 2])"
    "length [0::real, 2] = fst (dims ex_images)"
    "valid_randperm (fst (dims ex_images)) (randperm ex_draws)"
    by (auto simp: ex_store_def ex_images_def ex_draws_def valid_randperm_def lookup_def)
  from mixup_formula[OF h, of 0] show ?thesis by auto
qed

subsection \<open>The bounding box of CutMix\<close>

text \<open>
  Claim C6. For images of spatial size \<open>W x H\<close> (both positive) and every \<open>lam\<close> in
  \<open>[0, 1]\<close>, whatever the random centre: \<open>_rand_bbox\<close> returns coordinates with
  \<open>0 \<le> bbx1 \<le> bbx2 \<le> W\<close> and \<open>0 \<le> bby1 \<le> bby2 \<le> H\<close>, so every position of the
  box lies inside the image; the recomputed coefficient
  \<open>1 - (bbx2 - bbx1) * (bby2 - bby1) / (W * H)\<close> lies in \<open>[0, 1]\<close> and is the fraction of
  the positions of the image that the box does not cover. A call of \<open>_cutmix\<close> that
  returns has overwritten exactly that box of its image tensor and mixed the labels with
  exactly that coefficient.
\<close>

theorem cutmix_bounding_box:
  "(0 \<le> lam \<and> lam \<le> 1 \<and> 0 < W \<and> 0 < H \<longrightarrow>
      (\<exists>bbx1 bby1 bbx2 bby2.
         rand_bbox (B, C, W, H) lam d = Inr (bbx1, bby1, bbx2, bby2) \<and>
         0 \<le> bbx1 \<and> bbx1 \<le> bbx2 \<and> bbx2 \<le> int W \<and>
         0 \<le> bby1 \<and> bby1 \<le> bby2 \<and> bby2 \<le> int H \<and>
         (\<forall>x y. in_box (bbx1, bby1, bbx2, bby2) x y \<longrightarrow> x < W \<and> y < H) \<and>
         0 \<le> box_lam (B, C, W, H) (bbx1, bby1, bbx2, bby2) \<and>
         box_lam (B, C, W, H) (bbx1, bby1, bbx2, bby2) \<le> 1 \<and>
         box_lam (B, C, W, H) (bbx1, bby1, bbx2, bby2)
           = real (card (kept_positions W H (bbx1, bby1, bbx2, bby2))) / real (W * H))) \<and>
   (cutmix s imgs lbls al d = Inr (s', ri, rl) \<and>
    lookup s imgs = Some (Images t) \<and> lookup s lbls = Some (Labels ls) \<longrightarrow>
      (\<exists>box mixed.
         rand_bbox (dims t) (if al > 0 then beta_draw d else 1) d = Inr box \<and>
         lookup s' imgs = Some (Images (assign_box t box (select4 t (randperm d)))) \<and>
         mix_labels (box_lam (dims t) box) ls (randperm d) = Inr mixed \<and>
         lookup s' rl = Some (Labels mixed)))"
proof (intro conjI impI)
  assume h: "0 \<le> lam \<and> lam \<le> 1 \<and> 0 < W \<and> 0 < H"
  then have a: "0 \<le> lam" "lam \<le> 1" "0 < W" "0 < H" by simp_all
  from rand_bbox_returns[OF a, of B C d] obtain bbx1 bby1 bbx2 bby2 where
    r: "rand_bbox (B, C, W, H) lam d = Inr (bbx1, bby1, bbx2, bby2)"
    and b: "0 \<le> bbx1" "bbx1 \<le> bbx2" "bbx2 \<le> int W" "0 \<le> bby1" "bby1 \<le> bby2" "bby2 \<le> int H"
    by blast
  note f = box_lam_fraction[OF b a(3,4), of B C]
  show "\<exists>bbx1 bby1 bbx2 bby2.
         rand_bbox (B, C, W, H) lam d = Inr (bbx1, bby1, bbx2, bby2) \<and>
         0 \<le> bbx1 \<and> bbx1 \<le> bbx2 \<and> bbx2 \<le> int W \<and>
         0 \<le> bby1 \<and> bby1 \<le> bby2 \<and> bby2 \<le> int H \<and>
         (\<forall>x y. in_box (bbx1, bby1, bbx2, bby2) x y \<longrightarrow> x < W \<and> y < H) \<and>
         0 \<le> box_lam (B, C, W, H) (bbx1, bby1, bbx2, bby2) \<and>
         box_lam (B, C, W, H) (bbx1, bby1, bbx2, bby2) \<le> 1 \<and>
         box_lam (B, C, W, H) (bbx1, bby1, bbx2, bby2)
           = real (card (kept_positions W H (bbx1, bby1, bbx2, bby2))) / real (W * H)"
    using r b f in_box_in_bounds[OF b(3) b(6)]
    by (intro exI[of _ bbx1] exI[of _ bby1] exI[of _ bbx2] exI[of _ bby2]) blast
next
  assume h: "cutmix s imgs lbls al d = Inr (s', ri, rl) \<and>
    lookup s imgs = Some (Images t) \<and> lookup s lbls = Some (Labels ls)"
  then have run: "cutmix s imgs lbls al d = Inr (s', ri, rl)"
    and c: "lookup s imgs = Some (Images t)" "lookup s lbls = Some (Labels ls)" by simp_all
  from run obtain t' ls' box mixed where
    "lookup s imgs = Some (Images t')" "lookup s lbls = Some (Labels ls')"
    "rand_bbox (dims t') (if al > 0 then beta_draw d else 1) d = Inr box"
    "mix_labels (box_lam (dims t') box) ls' (randperm d) = Inr mixed"
    by (rule cutmix_cases)
  with c have rb: "rand_bbox (dims t) (if al > 0 then beta_draw d else 1) d = Inr box"
    and ml: "mix_labels (box_lam (dims t) box) ls (randperm d) = Inr mixed" by simp_all
  have lt: "imgs < length s" using c(1) by (rule lookup_Some_less)
  from cutmix_Inr[OF c rb ml] run lt
  have "lookup s' imgs = Some (Images (assign_box t box (select4 t (randperm d))))"
    and "lookup s' rl = Some (Labels mixed)"
    by (auto simp: lookup_append lookup_update) (simp add: lookup_def)
  with rb ml show "\<exists>box mixed.
         rand_bbox (dims t) (if al > 0 then beta_draw d else 1) d = Inr box \<and>
         lookup s' imgs = Some (Images (assign_box t box (select4 t (randperm d)))) \<and>
         mix_labels (box_lam (dims t) box) ls (randperm d) = Inr mixed \<and>
         lookup s' rl = Some (Labels mixed)"
    by blast
qed


text \<open>
  The example: \<open>lam = 3/4\<close> on 4 x 4 images with the centre (0, 3) gives the box
  \<open>[0, 1) x [2, 4)\<close>, which leaves 14 of 16 positions: the coefficient is 7/8.
\<close>

theorem cutmix_bounding_box_witness:
  "rand_bbox (2, 1, 4, 4) (3 / 4) ex_draws = Inr (0, 2, 1, 4) \<and>
   box_lam (2, 1, 4, 4) (0, 2, 1, 4) = real (card (kept_positions 4 4 (0, 2, 1, 4))) / real (4 * 4) \<and>
   box_lam (2, 1, 4, 4) (0, 2, 1, 4) = 7 / 8 \<and>
   (\<exists>s' mixed. cutmix ex_store 0 1 1 ex_draws = Inr (s', 0, 2) \<and>
      mix_labels (7 / 8) [0, 2] [1, 0] = Inr mixed \<and> lookup s' 2 = Some (Labels mixed))"
proof -
  have r: "rand_bbox (2, 1, 4, 4) (3 / 4) ex_draws = Inr (0, 2, 1, 4)"
    using ex_box by (simp add: ex_images_def)
  have h: "(0::real) \<le> 3 / 4 \<and> (3 / 4 :: real) \<le> 1 \<and> (0::nat) < 4 \<and> (0::nat) < 4" by simp
  from cutmix_bounding_box[of "3 / 4" 4 4 2 1 ex_draws] h r
  have "box_lam (2, 1, 4, 4) (0, 2, 1, 4)
          = real (card (kept_positions 4 4 (0, 2, 1, 4))) / real (4 * 4)"
    by auto
  moreover have l: "box_lam (2, 1, 4, 4) (0, 2, 1, 4) = 7 / 8" by (simp add: box_lam_def)
  moreover have "\<exists>s' mixed. cutmix ex_store 0 1 1 ex_draws = Inr (s', 0, 2) \<and>
      mix_labels (7 / 8) [0, 2] [1, 0] = Inr mixed \<and> lookup s' 2 = Some (Labels mixed)"
  proof -
    from ex_cutmix_runs obtain s2 where k: "cutmix ex_store 0 1 1 ex_draws = Inr (s2, 0, 2)" by blast
    have rb: "rand_bbox (dims ex_images) (if (1::real) > 0 then beta_draw ex_draws else 1) ex_draws
              = Inr (0, 2, 1, 4)"
      using ex_box by (simp add: ex_draws_def)
    from cutmix_bounding_box[where s = ex_store and imgs = 0 and lbls = 1 and al = 1
        and d = ex_draws and s' = s2 and ri = 0 and rl = 2 and t = ex_images and ls = "[0, 2]",
        THEN conjunct2]
      k ex_lookup rb
    obtain mixed where m: "mix_labels (box_lam (dims ex_images) (0, 2, 1, 4)) [0, 2] (randperm ex_draws) = Inr mixed"
      "lookup s2 2 = Some (Labels mixed)" by auto
    have e: "box_lam (dims ex_images) (0, 2, 1, 4) = 7 / 8"
      by (simp add: box_lam_def ex_images_def)
    have "mix_labels (7 / 8) [0, 2] [1, 0] = Inr mixed"
      using m(1) unfolding e by (simp add: ex_draws_def)
    with m(2) have "mix_labels (7 / 8) [0, 2] [1, 0] = Inr mixed \<and> lookup s2 2 = Some (Labels mixed)"
      by simp
    with k show ?thesis by blast
  qed
  ultimately show ?thesis using r by blast
qed

subsection \<open>What the augmentations change\<close>

text \<open>
  Claim C8. A call of \<open>_mixup\<close> that returns has put exactly two new tensors into the
  store and gives back their references: they are distinct from each other and from every
  object that existed before, the first holds the mixed images
  \<open>lam * images + (1 - lam) * images[index]\<close> and the second the mixed labels; no
  existing object has changed, so its input images and labels are as before. A call of
  \<open>_cutmix\<close> that returns gives back the reference to its input image tensor; that
  object now holds the old entries outside the bounding box and, inside it, the old
  entries of the permuted sample; the mixed labels are the one new tensor, and no other
  existing object, the input labels among them, has changed.
\<close>

theorem augmentation_frame:
  "(mixup s imgs lbls al d = Inr (s', ri, rl) \<longrightarrow>
      lookup s ri = None \<and> lookup s rl = None \<and> ri \<noteq> rl \<and>
      length s' = length s + 2 \<and>
      (\<exists>t ls mixed.
         lookup s imgs = Some (Images t) \<and> lookup s lbls = Some (Labels ls) \<and>
         mix_labels (if al > 0 then beta_draw d else 1) ls (randperm d) = Inr mixed \<and>
         lookup s' ri = Some (Images (t\<lparr>elems := (\<lambda>b c x y.
             (if al > 0 then beta_draw d else 1) * elems t b c x y
             + (1 - (if al > 0 then beta_draw d else 1)) * elems t (randperm d ! b) c x y)\<rparr>)) \<and>
         lookup s' rl = Some (Labels mixed)) \<and>
      (\<forall>a. lookup s a \<noteq> None \<longrightarrow> lookup s' a = lookup s a) \<and>
      lookup s' imgs = lookup s imgs \<and> lookup s' lbls = lookup s lbls) \<and>
   (cutmix s imgs lbls al d = Inr (s', ri, rl) \<and> lookup s imgs = Some (Images t) \<longrightarrow>
      ri = imgs \<and> lookup s rl = None \<and>
      length s' = length s + 1 \<and>
      (\<exists>box t'. rand_bbox (dims t) (if al > 0 then beta_draw d else 1) d = Inr box \<and>
         lookup s' imgs = Some (Images t') \<and> dims t' = dims t \<and>
         (\<forall>b c x y. elems t' b c x y
            = (if in_box box x y then elems t (randperm d ! b) c x y else elems t b c x y)) \<and>
         (\<exists>ls mixed. lookup s lbls = Some (Labels ls) \<and>
            mix_labels (box_lam (dims t) box) ls (randperm d) = Inr mixed \<and>
            lookup s' rl = Some (Labels mixed))) \<and>
      (\<forall>a. a \<noteq> imgs \<and> lookup s a \<noteq> None \<longrightarrow> lookup s' a = lookup s a) \<and>
      lookup s' lbls = lookup s lbls)"
proof (rule conjI; rule impI)
  let ?lam = "if al > 0 then beta_draw d else 1"
  assume run: "mixup s imgs lbls al d = Inr (s', ri, rl)"
  from run obtain t ls mixed where c: "lookup s imgs = Some (Images t)"
    "lookup s lbls = Some (Labels ls)"
    and ml: "mix_labels ?lam ls (randperm d) = Inr mixed"
    by (rule mixup_cases)
  from mixup_Inr[OF c ml] run
  have s': "s' = s @ [Images (add4 (scale4 ?lam t) (scale4 (1 - ?lam) (select4 t (randperm d)))),
                     Labels mixed]"
    and r: "ri = length s" "rl = Suc (length s)" by simp_all
  have old: "lookup s a \<noteq> None \<Longrightarrow> lookup s' a = lookup s a" for a
    by (auto simp: s' lookup_def nth_append split: if_splits)
  have new: "lookup s' ri = Some (Images (t\<lparr>elems := (\<lambda>b c x y.
             ?lam * elems t b c x y + (1 - ?lam) * elems t (randperm d ! b) c x y)\<rparr>))"
    "lookup s' rl = Some (Labels mixed)"
    unfolding s' r mix_images_elems[symmetric] by (simp_all add: lookup_def nth_append)
  have len: "length s' = length s + 2" by (simp add: s')
  have fresh: "lookup s ri = None" "lookup s rl = None" "ri \<noteq> rl"
    by (simp_all add: r lookup_def)
  have keep: "lookup s' imgs = lookup s imgs" "lookup s' lbls = lookup s lbls"
    using c by (simp_all add: old)
  have ex: "\<exists>t ls mixed.
         lookup s imgs = Some (Images t) \<and> lookup s lbls = Some (Labels ls) \<and>
         mix_labels ?lam ls (randperm d) = Inr mixed \<and>
         lookup s' ri = Some (Images (t\<lparr>elems := (\<lambda>b c x y.
             ?lam * elems t b c x y + (1 - ?lam) * elems t (randperm d ! b) c x y)\<rparr>)) \<and>
         lookup s' rl = Some (Labels mixed)"
    using c ml new by blast
  from fresh len ex old keep
  show "lookup s ri = None \<and> lookup s rl = None \<and> ri \<noteq> rl \<and>
      length s' = length s + 2 \<and>
      (\<exists>t ls mixed.
         lookup s imgs = Some (Images t) \<and> lookup s lbls = Some (Labels ls) \<and>
         mix_labels ?lam ls (randperm d) = Inr mixed \<and>
         lookup s' ri = Some (Images (t\<lparr>elems := (\<lambda>b c x y.
             ?lam * elems t b c x y + (1 - ?lam) * elems t (randperm d ! b) c x y)\<rparr>)) \<and>
         lookup s' rl = Some (Labels mixed)) \<and>
      (\<forall>a. lookup s a \<noteq> None \<longrightarrow> lookup s' a = lookup s a) \<and>
      lookup s' imgs = lookup s imgs \<and> lookup s' lbls = lookup s lbls"
    by blast
next
  let ?lam = "if al > 0 then beta_draw d else 1"
  assume h: "cutmix s imgs lbls al d = Inr (s', ri, rl) \<and> lookup s imgs = Some (Images t)"
  then have run: "cutmix s imgs lbls al d = Inr (s', ri, rl)"
    and ci: "lookup s imgs = Some (Images t)" by simp_all
  from run obtain t0 ls box mixed where c0: "lookup s imgs = Some (Images t0)"
    "lookup s lbls = Some (Labels ls)"
    and rb0: "rand_bbox (dims t0) ?lam d = Inr box"
    and ml0: "mix_labels (box_lam (dims t0) box) ls (randperm d) = Inr mixed"
    by (rule cutmix_cases)
  from c0(1) ci have tt: "t0 = t" by simp
  note cl = c0(2) and rb = rb0[unfolded tt] and ml = ml0[unfolded tt]
  from cutmix_Inr[OF ci cl rb ml] run
  have s': "s' = s[imgs := Images (assign_box t box (select4 t (randperm d)))] @ [Labels mixed]"
    and r: "ri = imgs" "rl = length s" by simp_all
  have lt: "imgs < length s" using ci by (rule lookup_Some_less)
  have old: "a \<noteq> imgs \<and> lookup s a \<noteq> None \<Longrightarrow> lookup s' a = lookup s a" for a
    by (auto simp: s' lookup_def nth_append split: if_splits)
  have img: "lookup s' imgs = Some (Images (assign_box t box (select4 t (randperm d))))"
    using lt by (simp add: s' lookup_append lookup_update)
  have lab: "lookup s' rl = Some (Labels mixed)"
    by (simp add: s' r lookup_def nth_append)
  have len: "length s' = length s + 1" by (simp add: s')
  from ci cl have "lbls \<noteq> imgs" by auto
  with cl old have keep: "lookup s' lbls = lookup s lbls" by simp
  have ex: "\<exists>box t'. rand_bbox (dims t) ?lam d = Inr box \<and>
         lookup s' imgs = Some (Images t') \<and> dims t' = dims t \<and>
         (\<forall>b c x y. elems t' b c x y
            = (if in_box box x y then elems t (randperm d ! b) c x y else elems t b c x y)) \<and>
         (\<exists>ls mixed. lookup s lbls = Some (Labels ls) \<and>
            mix_labels (box_lam (dims t) box) ls (randperm d) = Inr mixed \<and>
            lookup s' rl = Some (Labels mixed))"
    using rb img cl ml lab assign_box_elems[of t box "randperm d"]
    by (intro exI[of _ box] exI[of _ "assign_box t box (select4 t (randperm d))"]) auto
  have fresh: "ri = imgs" "lookup s rl = None" by (simp_all add: r lookup_def)
  from fresh len ex old keep
  show "ri = imgs \<and> lookup s rl = None \<and>
      length s' = length s + 1 \<and>
      (\<exists>box t'. rand_bbox (dims t) ?lam d = Inr box \<and>
         lookup s' imgs = Some (Images t') \<and> dims t' = dims t \<and>
         (\<forall>b c x y. elems t' b c x y
            = (if in_box box x y then elems t (randperm d ! b) c x y else elems t b c x y)) \<and>
         (\<exists>ls mixed. lookup s lbls = Some (Labels ls) \<and>
            mix_labels (box_lam (dims t) box) ls (randperm d) = Inr mixed \<and>
            lookup s' rl = Some (Labels mixed))) \<and>
      (\<forall>a. a \<noteq> imgs \<and> lookup s a \<noteq> None \<longrightarrow> lookup s' a = lookup s a) \<and>
      lookup s' lbls = lookup s lbls"
    by blast
qed

text \<open>
  On the example store, with \<open>lam = 3/4\<close> and the two samples swapped, \<open>_mixup\<close>
  returns the new objects 2 and 3: object 2 holds the mixed images (27 at position (0, 2)
  of the first image, from 2 and 102) and object 3 the mixed labels; objects 0 and 1 are
  as before. \<open>_cutmix\<close> returns object 0 itself, whose entry at position (0, 2) of the
  first image is now that of the second image (102) while position (0, 1), outside the
  box, keeps its value; the mixed labels are the new object 2.
\<close>

theorem augmentation_frame_witness:
  "(\<exists>s' mi. mixup ex_store 0 1 1 ex_draws = Inr (s', 2, 3) \<and> length s' = 4 \<and>
          lookup s' 2 = Some (Images mi) \<and> elems mi 0 0 0 2 = 27 \<and>
          lookup s' 3 = Some (Labels [1 / 2, 3 / 2]) \<and>
          lookup s' 0 = Some (Images ex_images) \<and> lookup s' 1 = Some (Labels [0, 2])) \<and>
   (\<exists>s' t' ml. cutmix ex_store 0 1 1 ex_draws = Inr (s', 0, 2) \<and> length s' = 3 \<and>
          lookup s' 0 = Some (Images t') \<and>
          elems t' 0 0 0 2 = 102 \<and> elems t' 0 0 0 1 = 1 \<and>
          lookup s' 2 = Some (Labels ml) \<and>
          lookup s' 1 = Some (Labels [0, 2]))"
proof -
  note c = ex_lookup
  have len: "length ex_store = 2" by (simp add: ex_store_def)
  from ex_mixup_runs obtain s1 where m: "mixup ex_store 0 1 1 ex_draws = Inr (s1, 2, 3)" by blast
  have lam: "(if (1::real) > 0 then beta_draw ex_draws else 1) = 3 / 4"
    by (simp add: ex_draws_def)
  have mixed: "mix_labels (3 / 4) [0, 2] (randperm ex_draws) = Inr [1 / 2, 3 / 2]"
    by (simp add: mix_labels_def vselect_def vadd_def vscale_def ex_draws_def)
  note f = augmentation_frame[of ex_store 0 1 1 ex_draws s1 2 3 ex_images,
      THEN conjunct1, rule_format, OF m]
  from f obtain t ls mx where e: "lookup ex_store 0 = Some (Images t)"
    "lookup ex_store 1 = Some (Labels ls)"
    "mix_labels (if (1::real) > 0 then beta_draw ex_draws else 1) ls (randperm ex_draws) = Inr mx"
    "lookup s1 2 = Some (Images (t\<lparr>elems := (\<lambda>b c x y.
             (if (1::real) > 0 then beta_draw ex_draws else 1) * elems t b c x y
             + (1 - (if (1::real) > 0 then beta_draw ex_draws else 1))
               * elems t (randperm ex_draws ! b) c x y)\<rparr>))"
    "lookup s1 3 = Some (Labels mx)"
    by blast
  from f have a: "length s1 = length ex_store + 2"
    "lookup s1 0 = lookup ex_store 0" "lookup s1 1 = lookup ex_store 1"
    by blast+
  from e(1,2) c have tt: "t = ex_images" "ls = [0, 2]" by simp_all
  from e(3) mixed have mx: "mx = [1 / 2, 3 / 2]" unfolding tt lam by simp
  define mi where "mi = ex_images\<lparr>elems := (\<lambda>b c x y.
             (if (1::real) > 0 then beta_draw ex_draws else 1) * elems ex_images b c x y
             + (1 - (if (1::real) > 0 then beta_draw ex_draws else 1))
               * elems ex_images (randperm ex_draws ! b) c x y)\<rparr>"
  have l2: "lookup s1 2 = Some (Images mi)" using e(4) unfolding tt mi_def .
  have l3: "lookup s1 3 = Some (Labels [1 / 2, 3 / 2])" using e(5) unfolding mx .
  have v: "elems mi 0 0 0 2 = 27"
    unfolding mi_def by (simp add: ex_images_def ex_draws_def)
  from m a c l2 l3 v len
  have first: "\<exists>s' mi. mixup ex_store 0 1 1 ex_draws = Inr (s', 2, 3) \<and> length s' = 4 \<and>
          lookup s' 2 = Some (Images mi) \<and> elems mi 0 0 0 2 = 27 \<and>
          lookup s' 3 = Some (Labels [1 / 2, 3 / 2]) \<and>
          lookup s' 0 = Some (Images ex_images) \<and> lookup s' 1 = Some (Labels [0, 2])"
    by (intro exI[of _ s1] exI[of _ mi]) simp
  from ex_cutmix_runs obtain s2 where k: "cutmix ex_store 0 1 1 ex_draws = Inr (s2, 0, 2)" by blast
  have rb: "rand_bbox (dims ex_images) (if (1::real) > 0 then beta_draw ex_draws else 1) ex_draws
              = Inr (0, 2, 1, 4)"
    using ex_box by (simp add: ex_draws_def)
  from k c(1) have kc: "cutmix ex_store 0 1 1 ex_draws = Inr (s2, 0, 2) \<and>
      lookup ex_store 0 = Some (Images ex_images)" by simp
  note g = augmentation_frame[of ex_store 0 1 1 ex_draws s2 0 2 ex_images,
      THEN conjunct2, rule_format, OF kc]
  from g obtain box t' ls ml where t0: "rand_bbox (dims ex_images)
        (if (1::real) > 0 then beta_draw ex_draws else 1) ex_draws = Inr box"
    "lookup s2 0 = Some (Images t')"
    "\<forall>b c x y. elems t' b c x y
       = (if in_box box x y then elems ex_images (randperm ex_draws ! b) c x y
          else elems ex_images b c x y)"
    and n: "lookup s2 2 = Some (Labels ml)"
    by blast
  from g have sz: "length s2 = length ex_store + 1" and l0: "lookup s2 1 = lookup ex_store 1"
    by blast+
  from l0 c have l: "lookup s2 1 = Some (Labels [0, 2])" by simp
  from t0(1) rb have bx: "box = (0, 2, 1, 4)" by simp
  note t' = t0(2) t0(3)[unfolded bx]
  have "elems t' 0 0 0 2 = 102" "elems t' 0 0 0 1 = 1"
    unfolding t'(2)[rule_format] by (simp_all add: in_box_def ex_images_def ex_draws_def)
  with k t'(1) l n sz len
  have "\<exists>s' t' ml. cutmix ex_store 0 1 1 ex_draws = Inr (s', 0, 2) \<and> length s' = 3 \<and>
          lookup s' 0 = Some (Images t') \<and>
          elems t' 0 0 0 2 = 102 \<and> elems t' 0 0 0 1 = 1 \<and>
          lookup s' 2 = Some (Labels ml) \<and>
          lookup s' 1 = Some (Labels [0, 2])"
    by (intro exI[of _ s2] exI[of _ t'] exI[of _ ml]) simp
  with first show ?thesis by blast
qed

subsection \<open>Loss composition\<close>

text \<open>
  Claim C2. Every training batch that is processed makes exactly one call of
  \<open>backward()\<close>, between the forward pass and the gradient clipping, and the loss it
  is called on is the classification loss of the model's logits against the (augmented,
  truncated) labels plus \<open>CONTRASTIVE_WEIGHT\<close> times the contrastive loss of the model's
  text and image features when the model provides \<open>get_contrastive_loss\<close>, and the
  classification loss alone otherwise. Over a whole epoch that returns, the losses passed
  to \<open>backward()\<close> are these composed losses, one per batch, in loader order.
\<close>

theorem loss_composition:
  "(train_batch cfg col n d b acc = Inr acc' \<longrightarrow>
      (\<exists>out ys. forward_batch cfg col n d b = Inr (out, ys) \<and>
         steps acc' = steps acc @
           [Zero_grad, Forward,
            Backward (case get_contrastive_loss col of
                        None \<Rightarrow> criterion col (logits out) ys
                      | Some contrastive \<Rightarrow>
                          criterion col (logits out) ys
                          + CONTRASTIVE_WEIGHT cfg
                            * contrastive (text_features out) (image_features out) (TEMPERATURE cfg)),
            Clip_grad_norm, Optimizer_step, Scheduler_step])) \<and>
   (train_epoch cfg col ds train_loader = Inr (avg_loss, train_accuracy, alpha_vals, trace) \<longrightarrow>
      list_all2 (\<lambda>l (j, b). \<exists>out ys. forward_batch cfg col j (ds j) b = Inr (out, ys) \<and>
                                l = composed_loss cfg col out ys)
        (backward_losses trace) (zip [0..<length train_loader] train_loader))"
proof (rule conjI; rule impI)
  assume "train_batch cfg col n d b acc = Inr acc'"
  from train_batch_steps[OF this] show "\<exists>out ys. forward_batch cfg col n d b = Inr (out, ys) \<and>
         steps acc' = steps acc @
           [Zero_grad, Forward,
            Backward (case get_contrastive_loss col of
                        None \<Rightarrow> criterion col (logits out) ys
                      | Some contrastive \<Rightarrow>
                          criterion col (logits out) ys
                          + CONTRASTIVE_WEIGHT cfg
                            * contrastive (text_features out) (image_features out) (TEMPERATURE cfg)),
            Clip_grad_norm, Optimizer_step, Scheduler_step]"
    unfolding composed_loss_def .
next
  assume e: "train_epoch cfg col ds train_loader = Inr (avg_loss, train_accuracy, alpha_vals, trace)"
  then obtain acc where
    r: "train_batches cfg col ds 0 train_loader
          \<lparr>total_loss = 0, total_samples = 0, correct = 0, alphas = [], steps = []\<rparr> = Inr acc"
    and tr: "trace = steps acc"
    by (auto simp: train_epoch_def split: sum.splits if_splits)
  from train_batches_steps[OF r] tr
  show "list_all2 (\<lambda>l (j, b). \<exists>out ys. forward_batch cfg col j (ds j) b = Inr (out, ys) \<and>
                                l = composed_loss cfg col out ys)
        (backward_losses trace) (zip [0..<length train_loader] train_loader)"
    by auto
qed


text \<open>
  One batch with classification loss 1, contrastive loss 2 and weight 1/2: the loss that
  is backpropagated is 2.
\<close>

theorem loss_composition_witness:
  "\<exists>avg_loss train_accuracy alpha_vals trace.
     train_epoch ex_train_cfg ex_components (\<lambda>n. ex_step_draws) [ex_batch]
       = Inr (avg_loss, train_accuracy, alpha_vals, trace) \<and>
     backward_losses trace = [2]"
proof -
  from ex_epoch_runs obtain avg_loss train_accuracy alpha_vals trace where
    r: "train_epoch ex_train_cfg ex_components (\<lambda>n. ex_step_draws) [ex_batch]
       = Inr (avg_loss, train_accuracy, alpha_vals, trace)"
    by (metis prod_cases4)
  have c: "composed_loss ex_train_cfg ex_components out ys = 2" for out ys
    by (simp add: composed_loss_def ex_components_def ex_train_cfg_def cfg_of_def)
  from loss_composition[where cfg = ex_train_cfg and col = ex_components
      and ds = "\<lambda>n. ex_step_draws" and train_loader = "[ex_batch]", THEN conjunct2] r
  have "list_all2 (\<lambda>l (j, b). \<exists>out ys.
            forward_batch ex_train_cfg ex_components j ex_step_draws b = Inr (out, ys) \<and>
            l = composed_loss ex_train_cfg ex_components out ys)
        (backward_losses trace) (zip [0..<length [ex_batch]] [ex_batch])"
    by blast
  then have "backward_losses trace = [2]"
    by (auto simp: list_all2_Cons2 c)
  with r show ?thesis by blast
qed

end
